theory Spec2Isabelle
  imports Complex_Main "HOL-Library.AList"
begin

section \<open>Values of the notebook: floats, Python objects, errors\<close>

text \<open>
  The notebook computes with NumPy float64 values. A finite float is idealised as a
  real number (no rounding, no overflow); the non-finite values that the code itself can
  create (a division by zero yields NaN or an infinity, without raising) are kept as
  values of their own. Signed zeros are not distinguished.
\<close>

datatype npfloat = Fin real | Inf bool | NaN

abbreviation PInf :: npfloat where "PInf \<equiv> Inf True"
abbreviation NInf :: npfloat where "NInf \<equiv> Inf False"

text \<open>The exceptions that the functions of the notebook and the library calls raise.\<close>

datatype error = AssertionError | NotImplementedError | ValueError | TypeError | KeyError

text \<open>An entry of a Python sequence handed to \<open>radius\<close>: a number, or anything else.\<close>

datatype pyval = Num npfloat | NonNum string

subsection \<open>IEEE arithmetic on the idealised floats\<close>

fun fl_add :: "npfloat \<Rightarrow> npfloat \<Rightarrow> npfloat" where
  "fl_add (Fin a) (Fin b) = Fin (a + b)"
| "fl_add NaN _ = NaN"
| "fl_add _ NaN = NaN"
| "fl_add (Inf s) (Inf t) = (if s = t then Inf s else NaN)"
| "fl_add (Inf s) (Fin _) = Inf s"
| "fl_add (Fin _) (Inf t) = Inf t"

fun fl_neg :: "npfloat \<Rightarrow> npfloat" where
  "fl_neg (Fin a) = Fin (- a)"
| "fl_neg (Inf s) = Inf (\<not> s)"
| "fl_neg NaN = NaN"

definition fl_sub :: "npfloat \<Rightarrow> npfloat \<Rightarrow> npfloat" where
  "fl_sub a b = fl_add a (fl_neg b)"

fun fl_mul :: "npfloat \<Rightarrow> npfloat \<Rightarrow> npfloat" where
  "fl_mul (Fin a) (Fin b) = Fin (a * b)"
| "fl_mul NaN _ = NaN"
| "fl_mul _ NaN = NaN"
| "fl_mul (Inf s) (Inf t) = Inf (s = t)"
| "fl_mul (Inf s) (Fin b) = (if b = 0 then NaN else Inf (s = (0 < b)))"
| "fl_mul (Fin a) (Inf t) = (if a = 0 then NaN else Inf (t = (0 < a)))"

fun fl_div :: "npfloat \<Rightarrow> npfloat \<Rightarrow> npfloat" where
  "fl_div (Fin a) (Fin b) =
     (if b = 0 then (if a = 0 then NaN else Inf (0 < a)) else Fin (a / b))"
| "fl_div NaN _ = NaN"
| "fl_div _ NaN = NaN"
| "fl_div (Inf s) (Inf t) = NaN"
| "fl_div (Inf s) (Fin b) = Inf (s = (0 \<le> b))"
| "fl_div (Fin a) (Inf t) = Fin 0"

fun fl_sqrt :: "npfloat \<Rightarrow> npfloat" where
  "fl_sqrt (Fin a) = (if a < 0 then NaN else Fin (sqrt a))"
| "fl_sqrt (Inf s) = (if s then PInf else NaN)"
| "fl_sqrt NaN = NaN"

text \<open>Python's \<open>a > b\<close> on floats: every comparison with NaN is false.\<close>

fun fl_gt :: "npfloat \<Rightarrow> npfloat \<Rightarrow> bool" where
  "fl_gt (Fin a) (Fin b) = (b < a)"
| "fl_gt NaN _ = False"
| "fl_gt _ NaN = False"
| "fl_gt (Inf s) (Inf t) = (s \<and> \<not> t)"
| "fl_gt (Inf s) (Fin _) = s"
| "fl_gt (Fin _) (Inf t) = (\<not> t)"

section \<open>The radius calculator\<close>

text \<open>
  \<^verbatim>\<open>
  def radius(vector):
      origin = np.zeros(len(vector))
      return spd.euclidean(origin, vector)
  \<close>
  \<open>spd.euclidean(u, v)\<close> is SciPy's: both arguments become arrays, and the result is
  \<open>norm(u - v)\<close>, with the norm of \<open>scipy.linalg\<close>. The function has no check of
  its own. A sequence with an entry that is not a number does not become a float array,
  and the subtraction raises TypeError; the norm of SciPy raises ValueError when the
  difference has an entry that is NaN or infinite.
\<close>

definition np_zeros :: "nat \<Rightarrow> npfloat list" where
  "np_zeros n = replicate n (Fin 0)"

text \<open>\<open>np.asarray\<close>: a float array when every entry is a number.\<close>

fun float_array :: "pyval list \<Rightarrow> npfloat list option" where
  "float_array [] = Some []"
| "float_array (Num x # vs) = map_option ((#) x) (float_array vs)"
| "float_array (NonNum _ # vs) = None"

text \<open>
  \<open>u - v\<close> on one-dimensional arrays: elementwise for equal lengths, an array of
  length 1 is broadcast, any other pair of lengths raises ValueError.
\<close>

definition np_subtract :: "npfloat list \<Rightarrow> npfloat list \<Rightarrow> error + npfloat list" where
  "np_subtract u v =
     (if length u = length v then Inr (map2 fl_sub u v)
      else if length u = 1 then Inr (map (\<lambda>b. fl_sub (hd u) b) v)
      else if length v = 1 then Inr (map (\<lambda>a. fl_sub a (hd v)) u)
      else Inl ValueError)"

text \<open>\<open>numpy.linalg.norm\<close> of a one-dimensional array: the root of the sum of squares.\<close>

definition np_sum :: "npfloat list \<Rightarrow> npfloat" where
  "np_sum xs = foldl fl_add (Fin 0) xs"

definition np_norm :: "npfloat list \<Rightarrow> npfloat" where
  "np_norm d = fl_sqrt (np_sum (map (\<lambda>x. fl_mul x x) d))"

text \<open>
  \<open>scipy.linalg.norm\<close> checks its argument first (\<open>check_finite\<close>): an entry that is
  NaN or infinite raises ValueError.
\<close>

fun fl_finite :: "npfloat \<Rightarrow> bool" where
  "fl_finite (Fin _) = True"
| "fl_finite _ = False"

definition scipy_norm :: "npfloat list \<Rightarrow> error + npfloat" where
  "scipy_norm d = (if list_all fl_finite d then Inr (np_norm d) else Inl ValueError)"

definition euclidean :: "npfloat list \<Rightarrow> pyval list \<Rightarrow> error + npfloat" where
  "euclidean u v =
     (case float_array v of
        None \<Rightarrow> Inl TypeError
      | Some w \<Rightarrow> (case np_subtract u w of Inl e \<Rightarrow> Inl e | Inr d \<Rightarrow> scipy_norm d))"

definition radius :: "pyval list \<Rightarrow> error + npfloat" where
  "radius vector = (let origin = np_zeros (length vector) in euclidean origin vector)"

text \<open>A vector of finite numbers, as a Python sequence.\<close>

definition numeric :: "real list \<Rightarrow> pyval list" where
  "numeric v = map (\<lambda>x. Num (Fin x)) v"

section \<open>The pairwise-distance histogram\<close>

text \<open>
  A two-dimensional float array of shape \<open>(length (rows X), shape1 X)\<close>: every row has
  \<open>shape1 X\<close> entries. Its entries are finite.
\<close>

record array2d =
  shape1 :: nat
  rows :: "real list list"

definition wf_array :: "array2d \<Rightarrow> bool" where
  "wf_array X = list_all (\<lambda>r. length r = shape1 X) (rows X)"

text \<open>
  \<open>spd.pdist(X)\<close>: the Euclidean distances of the rows, for every pair \<open>i < j\<close>, in
  the order \<open>(0,1), (0,2), \<dots>, (1,2), \<dots>\<close>.
\<close>

definition euclid_dist :: "real list \<Rightarrow> real list \<Rightarrow> real" where
  "euclid_dist p q = sqrt (sum_list (map2 (\<lambda>a b. (a - b)\<^sup>2) p q))"

fun pdist_rows :: "real list list \<Rightarrow> real list" where
  "pdist_rows [] = []"
| "pdist_rows (p # ps) = map (euclid_dist p) ps @ pdist_rows ps"

definition pdist :: "array2d \<Rightarrow> real list" where
  "pdist X = pdist_rows (rows X)"

text \<open>
  \<open>numpy.histogram(a, bins=b)\<close> for an integer \<open>b\<close>, which \<open>plt.hist\<close> and the
  pandas histogram plot both call. A bin count below 1 raises ValueError. The range is
  \<open>(0, 1)\<close> for empty data, else \<open>(min a, max a)\<close>, widened by one half on each
  side when the two are equal. The \<open>b + 1\<close> edges are equally spaced; every bin is
  half-open, but the last one, which is closed.
\<close>

definition outer_edges :: "real list \<Rightarrow> real \<times> real" where
  "outer_edges a =
     (if a = [] then (0, 1)
      else let lo = Min (set a); hi = Max (set a)
           in if lo = hi then (lo - 1 / 2, hi + 1 / 2) else (lo, hi))"

definition edge :: "real \<Rightarrow> real \<Rightarrow> nat \<Rightarrow> nat \<Rightarrow> real" where
  "edge lo hi b i = lo + real i * (hi - lo) / real b"

definition linspace :: "real \<Rightarrow> real \<Rightarrow> nat \<Rightarrow> real list" where
  "linspace lo hi b = map (edge lo hi b) [0..<Suc b]"

definition in_bin :: "real list \<Rightarrow> nat \<Rightarrow> nat \<Rightarrow> real \<Rightarrow> bool" where
  "in_bin es b i x =
     (es ! i \<le> x \<and> (if Suc i = b then x \<le> es ! Suc i else x < es ! Suc i))"

definition bin_counts :: "real list \<Rightarrow> nat \<Rightarrow> real list \<Rightarrow> nat list" where
  "bin_counts es b a = map (\<lambda>i. length (filter (in_bin es b i) a)) [0..<b]"

definition np_histogram :: "real list \<Rightarrow> int \<Rightarrow> error + (real list \<times> nat list)" where
  "np_histogram a bins =
     (if bins < 1 then Inl ValueError
      else let b = nat bins; (lo, hi) = outer_edges a; es = linspace lo hi b
           in Inr (es, bin_counts es b a))"

text \<open>
  What the calls of the plotting library leave behind, in the order of the calls. The
  functions of the notebook return nothing: the plot is their only output. \<open>'k\<close> is
  the curve that the density estimator of seaborn draws.
\<close>

datatype 'k draw =
    NewFigure
  | Subplots
  | DistPlot 'k
  | AxYLabel nat string
  | AxTitle nat nat int
  | Hist "real list" "nat list"
  | CumHist "real list" "npfloat list"
  | XLim npfloat npfloat
  | XLabel string
  | YLabel string

text \<open>Statements in sequence: the first exception ends the run, the state stays as it is.\<close>

fun seq :: "('s \<Rightarrow> (error + unit) \<times> 's) list \<Rightarrow> 's \<Rightarrow> (error + unit) \<times> 's" where
  "seq [] s = (Inr (), s)"
| "seq (c # cs) s = (case c s of (Inl e, s') \<Rightarrow> (Inl e, s') | (Inr _, s') \<Rightarrow> seq cs s')"

definition draw :: "'k draw \<Rightarrow> 'k draw list \<Rightarrow> (error + unit) \<times> 'k draw list" where
  "draw d p = (Inr (), p @ [d])"

definition raise :: "error \<Rightarrow> 's \<Rightarrow> (error + unit) \<times> 's" where
  "raise e s = (Inl e, s)"

text \<open>
  \<^verbatim>\<open>
  def in_sample_dist(X, n):
      plt.figure(figsize=(15,6))
      plt.hist(spd.pdist(X), bins=n, alpha=0.6)
      plt.xlabel('inter-sample distance')
      plt.ylabel('count')
  \<close>
\<close>

definition plt_hist :: "real list \<Rightarrow> int \<Rightarrow> 'k draw list \<Rightarrow> (error + unit) \<times> 'k draw list" where
  "plt_hist a bins p =
     (case np_histogram a bins of
        Inl e \<Rightarrow> raise e p
      | Inr (es, cs) \<Rightarrow> draw (Hist es cs) p)"

definition in_sample_dist :: "array2d \<Rightarrow> int \<Rightarrow> 'k draw list \<Rightarrow> (error + unit) \<times> 'k draw list" where
  "in_sample_dist X n =
     seq [draw NewFigure,
          plt_hist (pdist X) n,
          draw (XLabel ''inter-sample distance''),
          draw (YLabel ''count'')]"

section \<open>Data frames\<close>

text \<open>
  A pandas data frame: its number of rows and its columns, in order, each a label and
  \<open>nrows\<close> floats. \<open>df['r'] = s\<close> replaces the column where the label exists and
  appends it otherwise; \<open>df['r']\<close> raises KeyError where it does not exist.
\<close>

record dataframe =
  nrows :: nat
  cols :: "(string \<times> npfloat list) list"

definition has_col :: "dataframe \<Rightarrow> string \<Rightarrow> bool" where
  "has_col df c = (map_of (cols df) c \<noteq> None)"

definition get_col :: "dataframe \<Rightarrow> string \<Rightarrow> error + npfloat list" where
  "get_col df c = (case map_of (cols df) c of None \<Rightarrow> Inl KeyError | Some v \<Rightarrow> Inr v)"

definition set_col :: "string \<Rightarrow> npfloat list \<Rightarrow> dataframe \<Rightarrow> dataframe" where
  "set_col c v df = df\<lparr>cols := AList.update c v (cols df)\<rparr>"

text \<open>Python's builtin \<open>max\<close> over the entries: the first entry not exceeded later.\<close>

fun py_max :: "npfloat list \<Rightarrow> error + npfloat" where
  "py_max [] = Inl ValueError"
| "py_max (x # xs) = Inr (foldl (\<lambda>m y. if fl_gt y m then y else m) x xs)"

section \<open>The density and cumulative profile\<close>

text \<open>
  The state that \<open>kde_cdf_plot\<close> works on: the data frame of the caller, which is
  passed by reference, and the plot.
\<close>

record 'k world =
  frame :: dataframe
  plot :: "'k draw list"

definition plot_cmd :: "'k draw \<Rightarrow> 'k world \<Rightarrow> (error + unit) \<times> 'k world" where
  "plot_cmd d w = (Inr (), w\<lparr>plot := plot w @ [d]\<rparr>)"

text \<open>Run a statement that reads \<open>df['r']\<close>.\<close>

definition with_r ::
  "(npfloat list \<Rightarrow> 'k world \<Rightarrow> (error + unit) \<times> 'k world) \<Rightarrow> 'k world \<Rightarrow> (error + unit) \<times> 'k world" where
  "with_r f w = (case get_col (frame w) ''r'' of Inl e \<Rightarrow> raise e w | Inr r \<Rightarrow> f r w)"

text \<open>\<open>assert 'r' in df\<close>\<close>

definition assert_r :: "'k world \<Rightarrow> (error + unit) \<times> 'k world" where
  "assert_r w = (if has_col (frame w) ''r'' then (Inr (), w) else raise AssertionError w)"

text \<open>\<open>df['r'] = df['r'] / max(df['r'])\<close>\<close>

definition normalise_r :: "'k world \<Rightarrow> (error + unit) \<times> 'k world" where
  "normalise_r =
     with_r (\<lambda>r w. case py_max r of
                      Inl e \<Rightarrow> raise e w
                    | Inr m \<Rightarrow> (Inr (), w\<lparr>frame := set_col ''r'' (map (\<lambda>x. fl_div x m) r) (frame w)\<rparr>))"

text \<open>
  \<open>sns.distplot(df['r'], hist=False, rug=True, ax=ax1)\<close>: the density estimator is
  seaborn's and a parameter here; it draws a curve or raises.
\<close>

definition sns_distplot ::
  "(npfloat list \<Rightarrow> error + 'k) \<Rightarrow> 'k world \<Rightarrow> (error + unit) \<times> 'k world" where
  "sns_distplot distplot =
     with_r (\<lambda>r w. case distplot r of Inl e \<Rightarrow> raise e w | Inr k \<Rightarrow> plot_cmd (DistPlot k) w)"

text \<open>\<open>ax1.set_title('n={} in {}-d space'.format(len(df), df.shape[1] - 1))\<close>\<close>

definition set_title :: "'k world \<Rightarrow> (error + unit) \<times> 'k world" where
  "set_title w =
     plot_cmd (AxTitle 1 (nrows (frame w)) (int (length (cols (frame w))) - 1)) w"

text \<open>
  \<open>df['r'].plot(kind='hist', cumulative=True, normed=1, bins=len(df['r']), ...)\<close>:
  pandas drops the NaN entries and calls \<open>numpy.histogram\<close>, which raises ValueError
  for a bin count below 1 and for a range that is not finite. The plotted value of a
  bin is the sum of the counts up to it, divided by the sum of all counts.
\<close>

fun cumsum_from :: "nat \<Rightarrow> nat list \<Rightarrow> nat list" where
  "cumsum_from acc [] = []"
| "cumsum_from acc (c # cs) = (acc + c) # cumsum_from (acc + c) cs"

definition cumsum :: "nat list \<Rightarrow> nat list" where
  "cumsum cs = cumsum_from 0 cs"

fun finite_values :: "npfloat list \<Rightarrow> real list option" where
  "finite_values [] = Some []"
| "finite_values (Fin x # vs) = map_option ((#) x) (finite_values vs)"
| "finite_values (_ # vs) = None"

definition series_hist_cdf :: "npfloat list \<Rightarrow> int \<Rightarrow> error + (real list \<times> npfloat list)" where
  "series_hist_cdf r bins =
     (let vals = filter (\<lambda>x. x \<noteq> NaN) r
      in if bins < 1 then Inl ValueError
         else case finite_values vals of
                None \<Rightarrow> Inl ValueError
              | Some a \<Rightarrow>
                  (case np_histogram a bins of
                     Inl e \<Rightarrow> Inl e
                   | Inr (es, cs) \<Rightarrow>
                       Inr (es, map (\<lambda>c. fl_div (Fin (real c)) (Fin (real (sum_list cs))))
                                  (cumsum cs))))"

definition hist_cdf :: "'k world \<Rightarrow> (error + unit) \<times> 'k world" where
  "hist_cdf =
     with_r (\<lambda>r w. case series_hist_cdf r (int (length r)) of
                      Inl e \<Rightarrow> raise e w
                    | Inr (es, vs) \<Rightarrow> plot_cmd (CumHist es vs) w)"

text \<open>\<open>plt.xlim(0, .99*max(df['r']))\<close>\<close>

definition set_xlim :: "'k world \<Rightarrow> (error + unit) \<times> 'k world" where
  "set_xlim =
     with_r (\<lambda>r w. case py_max r of
                      Inl e \<Rightarrow> raise e w
                    | Inr m \<Rightarrow> plot_cmd (XLim (Fin 0) (fl_mul (Fin (99 / 100)) m)) w)"

text \<open>
  \<^verbatim>\<open>
  def kde_cdf_plot(df, norm=False, vol=False):
      assert 'r' in df, '...'
      if norm:
          # overwrite df.r with normalized version
          df['r'] = df['r'] / max(df['r'])
      fig, (ax1, ax2) = plt.subplots(2,1, sharex=True, figsize=(15,8))
      sns.distplot(df['r'], hist=False, rug=True, ax=ax1)
      ax1.set_ylabel('KDE')
      ax1.set_title('n={} in {}-d space'.format(len(df), df.shape[1] - 1) )
      if vol:
          raise NotImplementedError("Didn't finish implementing this volume normalization!")
          ...
      else:
          df['r'].plot(kind='hist', cumulative=True, normed=1, bins=len(df['r']), ...)
          ax2.set_ylabel('CDF')
          plt.xlim(0, .99*max(df['r']))
          xlab = 'radial distance'
      if norm:
          xlab += ' (%)'
      plt.xlabel(xlab)
  \<close>
  The statements after the \<open>raise\<close> of the \<open>vol\<close> branch are never run and have no
  counterpart here. The argument \<open>norm\<close> is \<open>nrm\<close> here.
\<close>

definition skip :: "'s \<Rightarrow> (error + unit) \<times> 's" where
  "skip s = (Inr (), s)"

definition xlab :: "bool \<Rightarrow> string" where
  "xlab nrm = ''radial distance'' @ (if nrm then '' (%)'' else [])"

text \<open>The statements from \<open>plt.subplots\<close> to the end of the function.\<close>

definition draw_profiles ::
  "(npfloat list \<Rightarrow> error + 'k) \<Rightarrow> bool \<Rightarrow> bool \<Rightarrow> 'k world \<Rightarrow> (error + unit) \<times> 'k world" where
  "draw_profiles distplot nrm vol =
     seq [plot_cmd Subplots,
          sns_distplot distplot,
          plot_cmd (AxYLabel 1 ''KDE''),
          set_title,
          (if vol then raise NotImplementedError
           else seq [hist_cdf, plot_cmd (AxYLabel 2 ''CDF''), set_xlim]),
          plot_cmd (XLabel (xlab nrm))]"

definition kde_cdf_plot ::
  "(npfloat list \<Rightarrow> error + 'k) \<Rightarrow> bool \<Rightarrow> bool \<Rightarrow> 'k world \<Rightarrow> (error + unit) \<times> 'k world" where
  "kde_cdf_plot distplot nrm vol =
     seq [assert_r,
          (if nrm then normalise_r else skip),
          draw_profiles distplot nrm vol]"

text \<open>
  The height of the plotted step curve over \<open>x\<close>: the value of the bin that holds
  \<open>x\<close>, where \<open>es\<close> are the edges and \<open>vs\<close> the values of the bins.
\<close>

definition cdf_at :: "real list \<Rightarrow> npfloat list \<Rightarrow> real \<Rightarrow> npfloat option" where
  "cdf_at es vs x =
     map_option (\<lambda>i. vs ! i) (find (\<lambda>i. in_bin es (length vs) i x) [0..<length vs])"

text \<open>
  The cumulative distribution in the words of the specification: the fraction of all
  values that are less than or equal to \<open>x\<close>.
\<close>

definition ecdf :: "real list \<Rightarrow> real \<Rightarrow> real" where
  "ecdf rs x = real (length (filter (\<lambda>v. v \<le> x) rs)) / real (length rs)"


section \<open>The blob generator adapter\<close>

text \<open>Python's \<open>'x{}'.format(i)\<close>: the decimal digits of \<open>i\<close> after an \<open>x\<close>.\<close>

definition digit :: "nat \<Rightarrow> char" where
  "digit n = char_of (48 + n)"

function str_nat :: "nat \<Rightarrow> string" where
  "str_nat n = (if n < 10 then [digit n] else str_nat (n div 10) @ [digit (n mod 10)])"
  by pat_completeness auto
termination
  by (relation "measure id") auto

declare str_nat.simps [simp del]

definition col_name :: "nat \<Rightarrow> string" where
  "col_name i = CHR ''x'' # str_nat i"

text \<open>\<open>pd.DataFrame(X, columns=names)\<close>: column \<open>j\<close> holds entry \<open>j\<close> of every row.\<close>

definition DataFrame :: "array2d \<Rightarrow> string list \<Rightarrow> dataframe" where
  "DataFrame X names =
     \<lparr>nrows = length (rows X),
      cols = map (\<lambda>j. (names ! j, map (\<lambda>row. Fin (row ! j)) (rows X))) [0..<shape1 X]\<rparr>"

text \<open>
  \<open>df.apply(radius, axis=1)\<close>: \<open>radius\<close> on every row, the results in a column; an
  exception of \<open>radius\<close> ends the call. On a frame without columns pandas (of the
  time of the notebook) does not call the function for the rows and fills the column
  with NaN.
\<close>

definition df_row :: "dataframe \<Rightarrow> nat \<Rightarrow> pyval list" where
  "df_row df i = map (\<lambda>(c, v). Num (v ! i)) (cols df)"

fun collect :: "(error + 'a) list \<Rightarrow> error + 'a list" where
  "collect [] = Inr []"
| "collect (Inl e # _) = Inl e"
| "collect (Inr x # rs) = (case collect rs of Inl e \<Rightarrow> Inl e | Inr xs \<Rightarrow> Inr (x # xs))"

definition df_apply_rows :: "(pyval list \<Rightarrow> error + npfloat) \<Rightarrow> dataframe \<Rightarrow> error + npfloat list" where
  "df_apply_rows f df =
     (if cols df = [] then Inr (replicate (nrows df) NaN)
      else collect (map (\<lambda>i. f (df_row df i)) [0..<nrows df]))"

text \<open>
  \<^verbatim>\<open>
  def make_blob_df(n_points=1000, dims=2, blobs=5, bounding_box=(-10.0, 10.0)):
      X, y = make_blobs(n_samples=n_points, n_features=dims, centers=blobs,
                        center_box=bounding_box)
      X_df = pd.DataFrame(X, columns=['x{}'.format(i) for i in range(X.shape[1])])
      X_df_no_r = copy.deepcopy(X_df)
      X_df['r'] = X_df.apply(radius, axis=1)
      return X, X_df, X_df_no_r, y
  \<close>
  \<open>make_blobs\<close> is scikit-learn's random generator and a parameter here: it returns a
  point array and one label for each point, or raises.
\<close>

definition make_blob_df ::
  "(nat \<Rightarrow> nat \<Rightarrow> nat \<Rightarrow> real \<times> real \<Rightarrow> error + (array2d \<times> nat list)) \<Rightarrow>
   nat \<Rightarrow> nat \<Rightarrow> nat \<Rightarrow> real \<times> real \<Rightarrow>
   error + (array2d \<times> dataframe \<times> dataframe \<times> nat list)" where
  "make_blob_df make_blobs n_points dims blobs bounding_box =
     (case make_blobs n_points dims blobs bounding_box of
        Inl e \<Rightarrow> Inl e
      | Inr (X, y) \<Rightarrow>
          (let X_df = DataFrame X (map col_name [0..<shape1 X]);
               X_df_no_r = X_df
           in case df_apply_rows radius X_df of
                Inl e \<Rightarrow> Inl e
              | Inr r \<Rightarrow> Inr (X, set_col ''r'' r X_df, X_df_no_r, y)))"

text \<open>What scikit-learn documents of the value that \<open>make_blobs\<close> returns.\<close>

definition blobs_shape :: "nat \<Rightarrow> nat \<Rightarrow> nat \<Rightarrow> array2d \<times> nat list \<Rightarrow> bool" where
  "blobs_shape n d k Xy =
     (case Xy of (X, y) \<Rightarrow>
        length (rows X) = n \<and> shape1 X = d \<and> wf_array X \<and>
        length y = n \<and> list_all (\<lambda>l. l < k) y)"

section \<open>Properties of the radius calculator\<close>

lemma float_array_numeric: "float_array (numeric v) = Some (map Fin v)"
  by (induction v) (simp_all add: numeric_def)

lemma float_array_None_iff:
  "float_array v = None \<longleftrightarrow> (\<exists>s. NonNum s \<in> set v)"
proof (induction v)
  case Nil
  show ?case by simp
next
  case (Cons a v)
  show ?case
  proof (cases a)
    case (Num x)
    with Cons show ?thesis by auto
  next
    case (NonNum s)
    then show ?thesis by auto
  qed
qed

lemma foldl_fl_add_Fin:
  "foldl fl_add (Fin a) (map Fin xs) = Fin (a + sum_list xs)"
  by (induction xs arbitrary: a) (simp_all add: add.assoc)

lemma np_sum_Fin: "np_sum (map Fin xs) = Fin (sum_list xs)"
  by (simp add: np_sum_def foldl_fl_add_Fin)

lemma map2_sub_zeros:
  "map2 fl_sub (replicate (length v) (Fin 0)) (map Fin v) = map (\<lambda>x. Fin (- x)) v"
  by (induction v) (simp_all add: fl_sub_def)

lemma sum_list_squares_nonneg: "0 \<le> sum_list (map (\<lambda>x. x\<^sup>2) (v :: real list))"
  by (induction v) simp_all

lemma np_norm_neg:
  "np_norm (map (\<lambda>x. Fin (- x)) v) = Fin (sqrt (sum_list (map (\<lambda>x. x\<^sup>2) v)))"
proof -
  have "map (\<lambda>x. fl_mul x x) (map (\<lambda>x. Fin (- x)) v) = map Fin (map (\<lambda>x. x\<^sup>2) v)"
    by (simp add: power2_eq_square)
  then have "np_sum (map (\<lambda>x. fl_mul x x) (map (\<lambda>x. Fin (- x)) v))
      = Fin (sum_list (map (\<lambda>x. x\<^sup>2) v))"
    by (simp only: np_sum_Fin)
  then show ?thesis
    using sum_list_squares_nonneg [of v] by (simp add: np_norm_def)
qed

lemma float_array_length: "float_array v = Some w \<Longrightarrow> length w = length v"
proof (induction v arbitrary: w)
  case Nil
  then show ?case by simp
next
  case (Cons a v)
  then show ?case by (cases a) auto
qed

lemma float_array_set: "float_array v = Some w \<Longrightarrow> set w = {x. Num x \<in> set v}"
proof (induction v arbitrary: w)
  case Nil
  then show ?case by simp
next
  case (Cons a v)
  then show ?case by (cases a) auto
qed

lemma fl_finite_neg: "fl_finite (fl_neg x) = fl_finite x"
  by (cases x) simp_all

lemma radius_cases:
  "radius v =
     (case float_array v of
        None \<Rightarrow> Inl TypeError
      | Some w \<Rightarrow> if list_all fl_finite w then Inr (np_norm (map fl_neg w)) else Inl ValueError)"
proof (cases "float_array v")
  case None
  then show ?thesis by (simp add: radius_def euclidean_def)
next
  case (Some w)
  then have len: "length w = length v" by (rule float_array_length)
  have sub: "map2 fl_sub (replicate (length w) (Fin 0)) w = map fl_neg w"
  proof (induction w)
    case Nil
    show ?case by simp
  next
    case (Cons x w)
    then show ?case by (cases x) (simp_all add: fl_sub_def)
  qed
  have fin: "list_all fl_finite (map fl_neg w) = list_all fl_finite w"
    by (induction w) (simp_all add: fl_finite_neg)
  from Some len sub fin show ?thesis
    by (simp add: radius_def euclidean_def np_subtract_def np_zeros_def scipy_norm_def)
qed

lemma radius_numeric:
  "radius (numeric v) = Inr (Fin (sqrt (sum_list (map (\<lambda>x. x\<^sup>2) v))))"
proof -
  have "map fl_neg (map Fin v) = map (\<lambda>x. Fin (- x)) v"
    by simp
  moreover have "list_all fl_finite (map Fin v)"
    by (induction v) simp_all
  ultimately show ?thesis
    by (simp only: radius_cases float_array_numeric option.case if_True np_norm_neg)
qed

lemma sqrt_25: "sqrt 25 = 5"
proof -
  have "sqrt ((5::real)\<^sup>2) = 5" by (simp only: real_sqrt_abs abs_numeral)
  then show ?thesis by simp
qed

text \<open>
  C1. For a non-empty vector \<open>v\<close> of finite numbers, \<open>radius\<close> returns the Euclidean
  norm of \<open>v\<close>, the square root of the sum of the squared components. The radius of
  every point is a number that is not negative, the radius of the zero vector of any
  length is 0, \<open>radius([3,4])\<close> is 5 and \<open>radius([0,0,0])\<close> is 0.
\<close>

theorem radius_euclidean_norm:
  assumes "v \<noteq> []"
  shows "radius (numeric v) = Inr (Fin (sqrt (sum_list (map (\<lambda>x. x\<^sup>2) v))))
    \<and> (\<exists>r. radius (numeric p) = Inr (Fin r) \<and> 0 \<le> r)
    \<and> radius (numeric (replicate d 0)) = Inr (Fin 0)
    \<and> radius (numeric [3, 4]) = Inr (Fin 5)
    \<and> radius (numeric [0, 0, 0]) = Inr (Fin 0)"
proof -
  have nonneg: "\<exists>r. radius (numeric p) = Inr (Fin r) \<and> 0 \<le> r"
    using sum_list_squares_nonneg [of p] by (simp add: radius_numeric)
  have "sum_list (map (\<lambda>x. x\<^sup>2) (replicate d (0::real))) = 0"
    by (induction d) simp_all
  then have zero: "radius (numeric (replicate d 0)) = Inr (Fin 0)"
    by (simp only: radius_numeric) simp
  have three_four: "radius (numeric [3, 4]) = Inr (Fin 5)"
    by (simp add: radius_numeric sqrt_25)
  have zeros: "radius (numeric [0, 0, 0]) = Inr (Fin 0)"
    by (simp add: radius_numeric)
  show ?thesis
    using nonneg zero three_four zeros by (simp add: radius_numeric)
qed

theorem radius_euclidean_norm_witness:
  "[1, 2, 2] \<noteq> ([] :: real list) \<and> radius (numeric [1, 2, 2]) = Inr (Fin 3)"
proof -
  have ne: "[1, 2, 2] \<noteq> ([] :: real list)" by simp
  have "sqrt ((3::real)\<^sup>2) = 3" by (simp only: real_sqrt_abs abs_numeral)
  then have "sqrt (9::real) = 3" by simp
  then show ?thesis
    using radius_euclidean_norm [OF ne, of "[]" 0] by simp
qed

text \<open>
  C5, as the code has it. \<open>radius\<close> has no check of its own and no error of the kind
  InvalidInput. It fails with the TypeError of the library exactly when the vector has an
  entry that is not a number, and with the ValueError of the library exactly when all
  entries are numbers and one of them is NaN or infinite. It succeeds on every other
  vector, the empty one included, for which it returns 0; on finite numbers the result is
  the Euclidean norm.
\<close>

theorem radius_failures:
  "(radius v = Inl TypeError \<longleftrightarrow> (\<exists>s. NonNum s \<in> set v))
    \<and> (radius v = Inl ValueError \<longleftrightarrow>
          \<not> (\<exists>s. NonNum s \<in> set v) \<and> (\<exists>x. Num x \<in> set v \<and> \<not> fl_finite x))
    \<and> (isl (radius v) \<longleftrightarrow>
          (\<exists>s. NonNum s \<in> set v) \<or> (\<exists>x. Num x \<in> set v \<and> \<not> fl_finite x))
    \<and> radius [] = Inr (Fin 0)
    \<and> radius (numeric u) = Inr (Fin (sqrt (sum_list (map (\<lambda>x. x\<^sup>2) u))))"
proof -
  have abc: "(radius v = Inl TypeError \<longleftrightarrow> (\<exists>s. NonNum s \<in> set v))
    \<and> (radius v = Inl ValueError \<longleftrightarrow>
          \<not> (\<exists>s. NonNum s \<in> set v) \<and> (\<exists>x. Num x \<in> set v \<and> \<not> fl_finite x))
    \<and> (isl (radius v) \<longleftrightarrow>
          (\<exists>s. NonNum s \<in> set v) \<or> (\<exists>x. Num x \<in> set v \<and> \<not> fl_finite x))"
  proof (cases "float_array v")
    case None
    then have "\<exists>s. NonNum s \<in> set v" by (simp add: float_array_None_iff)
    with None show ?thesis by (simp add: radius_cases)
  next
    case (Some w)
    then have no: "\<not> (\<exists>s. NonNum s \<in> set v)"
      using float_array_None_iff [of v] by simp
    have "list_all fl_finite w \<longleftrightarrow> \<not> (\<exists>x. Num x \<in> set v \<and> \<not> fl_finite x)"
      using float_array_set [OF Some] by (auto simp: list_all_iff)
    with Some no show ?thesis by (simp add: radius_cases)
  qed
  have d: "radius [] = Inr (Fin 0)"
    by (simp add: radius_cases np_norm_def np_sum_def)
  show ?thesis
    using abc d radius_numeric [of u] by simp
qed

theorem radius_failures_witness:
  "radius [Num (Fin 3), NonNum ''a''] = Inl TypeError
   \<and> radius [Num (Fin 3), Num NaN] = Inl ValueError
   \<and> radius [Num (Fin 3), Num PInf] = Inl ValueError
   \<and> radius [] = Inr (Fin 0)"
proof -
  have t: "\<exists>s. NonNum s \<in> set [Num (Fin 3), NonNum ''a'']" by simp
  have n1: "\<not> (\<exists>s. NonNum s \<in> set [Num (Fin 3), Num NaN])" by simp
  have n2: "\<exists>x. Num x \<in> set [Num (Fin 3), Num NaN] \<and> \<not> fl_finite x"
    by (rule exI [of _ NaN]) simp
  have i1: "\<not> (\<exists>s. NonNum s \<in> set [Num (Fin 3), Num PInf])" by simp
  have i2: "\<exists>x. Num x \<in> set [Num (Fin 3), Num PInf] \<and> \<not> fl_finite x"
    by (rule exI [of _ PInf]) simp
  from t radius_failures [of "[Num (Fin 3), NonNum ''a'']" "[]"]
  have a: "radius [Num (Fin 3), NonNum ''a''] = Inl TypeError" by blast
  from n1 n2 radius_failures [of "[Num (Fin 3), Num NaN]" "[]"]
  have b: "radius [Num (Fin 3), Num NaN] = Inl ValueError" by blast
  from i1 i2 radius_failures [of "[Num (Fin 3), Num PInf]" "[]"]
  have c: "radius [Num (Fin 3), Num PInf] = Inl ValueError" by blast
  from radius_failures [of "[]" "[]"]
  have d: "radius [] = Inr (Fin 0)" by blast
  from a b c d show ?thesis by blast
qed

text \<open>
  The empty vector is a counterexample to C5 as it is stated: \<open>radius\<close> does not fail
  on it, it returns 0.
\<close>

theorem radius_empty_counterexample:
  "\<not> isl (radius []) \<and> radius [] = Inr (Fin 0)"
  by (simp add: radius_cases np_norm_def np_sum_def)

section \<open>Properties of the density and cumulative profile: control flow and the frame\<close>

lemmas step_defs = plot_cmd_def sns_distplot_def with_r_def raise_def set_title_def
  hist_cdf_def set_xlim_def assert_r_def normalise_r_def skip_def

lemma get_col_has: "has_col df c \<longleftrightarrow> (\<exists>r. get_col df c = Inr r)"
  by (auto simp: has_col_def get_col_def split: option.splits)

lemma get_col_set_col: "get_col (set_col c v df) c = Inr v"
  by (simp add: get_col_def set_col_def update_conv')

lemma draw_profiles_frame: "frame (snd (draw_profiles dp nrm vol w)) = frame w"
  by (auto simp: draw_profiles_def step_defs split: sum.splits prod.splits if_splits)




lemma kde_unfold:
  "kde_cdf_plot dp nrm vol w =
    (if \<not> has_col (frame w) ''r'' then (Inl AssertionError, w)
     else if nrm then (case normalise_r w of (Inl e, w') \<Rightarrow> (Inl e, w') | (Inr u, w') \<Rightarrow> draw_profiles dp nrm vol w')
     else draw_profiles dp nrm vol w)"
  by (simp add: kde_cdf_plot_def assert_r_def raise_def skip_def split: prod.splits sum.splits)

lemma normalise_r_cases:
  "normalise_r w = (case get_col (frame w) ''r'' of Inl e \<Rightarrow> (Inl e, w)
     | Inr r \<Rightarrow> (case py_max r of Inl e \<Rightarrow> (Inl e, w)
         | Inr m \<Rightarrow> (Inr (), w\<lparr>frame := set_col ''r'' (map (\<lambda>x. fl_div x m) r) (frame w)\<rparr>)))"
  by (simp add: normalise_r_def with_r_def raise_def split: sum.splits)

lemma foldl_max_Fin:
  "foldl (\<lambda>m y. if fl_gt y m then y else m) (Fin a) (map Fin xs) = Fin (fold max xs a)"
proof (induction xs arbitrary: a)
  case Nil
  show ?case by simp
next
  case (Cons x xs)
  have "(if a < x then x else a) = max x a" by (simp add: max_def)
  with Cons show ?case by simp
qed

lemma py_max_Fin: "rs \<noteq> [] \<Longrightarrow> py_max (map Fin rs) = Inr (Fin (Max (set rs)))"
proof (cases rs)
  case Nil
  assume "rs \<noteq> []"
  with Nil show ?thesis by simp
next
  case (Cons a list)
  have "fold max list a = Max (set (a # list))"
    by (rule Max.set_eq_fold [symmetric])
  with Cons show ?thesis by (simp add: foldl_max_Fin)
qed

lemma normalised_bounds:
  assumes "rs \<noteq> []" "\<forall>x\<in>set rs. 0 \<le> x" "\<exists>x\<in>set rs. 0 < x"
  shows "0 < Max (set (rs :: real list))"
    and "\<forall>x\<in>set rs. 0 \<le> x / Max (set rs) \<and> x / Max (set rs) \<le> 1"
    and "Max ((\<lambda>x. x / Max (set rs)) ` set rs) = 1"
proof -
  let ?M = "Max (set rs)"
  from assms(3) obtain x where x: "x \<in> set rs" "0 < x" by blast
  then have "x \<le> ?M" by simp
  with x show pos: "0 < ?M" by linarith
  show bounds: "\<forall>x\<in>set rs. 0 \<le> x / ?M \<and> x / ?M \<le> 1"
  proof
    fix y assume y: "y \<in> set rs"
    then have "y \<le> ?M" by simp
    moreover from y assms(2) have "0 \<le> y" by blast
    ultimately show "0 \<le> y / ?M \<and> y / ?M \<le> 1" using pos by simp
  qed
  have "?M \<in> set rs" using assms(1) by (intro Max_in) simp_all
  then have "?M / ?M \<in> (\<lambda>x. x / ?M) ` set rs" by (rule imageI)
  then have one_in: "1 \<in> (\<lambda>x. x / ?M) ` set rs" using pos by simp
  show "Max ((\<lambda>x. x / ?M) ` set rs) = 1"
  proof (rule Max_eqI)
    show "finite ((\<lambda>x. x / ?M) ` set rs)" by simp
    show "1 \<in> (\<lambda>x. x / ?M) ` set rs" by (rule one_in)
    fix y assume "y \<in> (\<lambda>x. x / ?M) ` set rs"
    with bounds show "y \<le> 1" by auto
  qed
qed

lemma normalise_r_Fin:
  assumes "get_col (frame w) ''r'' = Inr (map Fin rs)" "rs \<noteq> []" "Max (set rs) \<noteq> 0"
  shows "normalise_r w =
     (Inr (), w\<lparr>frame := set_col ''r'' (map (\<lambda>x. Fin (x / Max (set rs))) rs) (frame w)\<rparr>)"
proof -
  have eq: "map (\<lambda>x. fl_div x (Fin (Max (set rs)))) (map Fin rs)
      = map (\<lambda>x. Fin (x / Max (set rs))) rs"
    using assms(3) by simp
  have "normalise_r w = (Inr (), w\<lparr>frame :=
      set_col ''r'' (map (\<lambda>x. fl_div x (Fin (Max (set rs)))) (map Fin rs)) (frame w)\<rparr>)"
    using assms(1,2) by (simp add: normalise_r_cases py_max_Fin)
  then show ?thesis by (simp only: eq)
qed

lemma kde_norm_run:
  assumes "get_col (frame w) ''r'' = Inr (map Fin rs)" "rs \<noteq> []" "Max (set rs) \<noteq> 0"
  shows "kde_cdf_plot dp True vol w =
     draw_profiles dp True vol
       (w\<lparr>frame := set_col ''r'' (map (\<lambda>x. Fin (x / Max (set rs))) rs) (frame w)\<rparr>)"
proof -
  have "has_col (frame w) ''r''" using assms(1) by (auto simp: get_col_has)
  then show ?thesis
    by (simp add: kde_unfold normalise_r_Fin [OF assms])
qed


text \<open>
  C10. On a data frame without a column \<open>r\<close> the call ends with the AssertionError at
  once: the frame and the plot are as before, nothing has been computed or drawn. On a
  data frame with a column \<open>r\<close> the assertion passes and the run goes on with the
  statements after it.
\<close>

theorem kde_cdf_plot_requires_r:
  "(\<not> has_col (frame w) ''r'' \<longrightarrow> kde_cdf_plot dp nrm vol w = (Inl AssertionError, w))
   \<and> (has_col (frame w) ''r'' \<longrightarrow>
        assert_r w = (Inr (), w)
        \<and> kde_cdf_plot dp nrm vol w
            = seq [if nrm then normalise_r else skip, draw_profiles dp nrm vol] w)"
  by (simp add: kde_cdf_plot_def assert_r_def raise_def)

theorem kde_cdf_plot_requires_r_witness:
  "kde_cdf_plot (\<lambda>r. Inr (length r)) True False
      \<lparr>frame = \<lparr>nrows = 1, cols = [(''x0'', [Fin 2])]\<rparr>, plot = []\<rparr>
    = (Inl AssertionError, \<lparr>frame = \<lparr>nrows = 1, cols = [(''x0'', [Fin 2])]\<rparr>, plot = []\<rparr>)
   \<and> assert_r \<lparr>frame = \<lparr>nrows = 1, cols = [(''r'', [Fin 2])]\<rparr>, plot = ([] :: nat draw list)\<rparr>
    = (Inr (), \<lparr>frame = \<lparr>nrows = 1, cols = [(''r'', [Fin 2])]\<rparr>, plot = []\<rparr>)"
  using kde_cdf_plot_requires_r [of "\<lparr>frame = \<lparr>nrows = 1, cols = [(''x0'', [Fin 2])]\<rparr>, plot = []\<rparr>"
      "\<lambda>r. Inr (length r)" True False]
    kde_cdf_plot_requires_r [of "\<lparr>frame = \<lparr>nrows = 1, cols = [(''r'', [Fin 2])]\<rparr>, plot = ([] :: nat draw list)\<rparr>"
      "\<lambda>r. Inr (length r)" True False]
  by (simp add: has_col_def)




lemma set_col_same:
  assumes "get_col df c = Inr r"
  shows "set_col c v df = df \<longleftrightarrow> v = r"
proof
  assume "set_col c v df = df"
  then have "get_col (set_col c v df) c = get_col df c" by simp
  with assms show "v = r" by (simp add: get_col_set_col)
next
  assume "v = r"
  moreover from assms have "map_of (cols df) c = Some r"
    by (simp add: get_col_def split: option.splits)
  ultimately show "set_col c v df = df"
    by (simp add: set_col_def update_triv)
qed

text \<open>
  C7, as the code has it. Without normalisation the call leaves the data frame of the
  caller as it was, whatever else happens. With normalisation, on a frame whose column
  \<open>r\<close> is not empty, the column of the caller's frame is overwritten with the radii
  divided by their maximum, as the comment in the code says: the frame after the call
  differs from the frame before it unless the division leaves every radius as it was.
  When the call fails before the assignment, for want of a column \<open>r\<close> or on an empty
  one, the frame is as it was.
\<close>

theorem kde_cdf_plot_frame_effect:
  "frame (snd (kde_cdf_plot dp False vol w)) = frame w
   \<and> (get_col (frame w) ''r'' = Inr r \<and> py_max r = Inr m \<longrightarrow>
        frame (snd (kde_cdf_plot dp True vol w))
          = set_col ''r'' (map (\<lambda>x. fl_div x m) r) (frame w))
   \<and> (get_col (frame w) ''r'' = Inr r \<and> py_max r = Inr m \<longrightarrow>
        (frame (snd (kde_cdf_plot dp True vol w)) = frame w
           \<longleftrightarrow> map (\<lambda>x. fl_div x m) r = r))
   \<and> ((\<not> has_col (frame w) ''r'' \<or> get_col (frame w) ''r'' = Inr []) \<longrightarrow>
        frame (snd (kde_cdf_plot dp True vol w)) = frame w)"
proof -
  have a: "frame (snd (kde_cdf_plot dp False vol w)) = frame w"
    by (simp add: kde_unfold draw_profiles_frame)
  have b: "get_col (frame w) ''r'' = Inr r \<and> py_max r = Inr m \<longrightarrow>
        frame (snd (kde_cdf_plot dp True vol w))
          = set_col ''r'' (map (\<lambda>x. fl_div x m) r) (frame w)"
    by (auto simp: kde_unfold get_col_has normalise_r_cases draw_profiles_frame)
  have b': "get_col (frame w) ''r'' = Inr r \<and> py_max r = Inr m \<longrightarrow>
        (frame (snd (kde_cdf_plot dp True vol w)) = frame w
           \<longleftrightarrow> map (\<lambda>x. fl_div x m) r = r)"
  proof
    assume h: "get_col (frame w) ''r'' = Inr r \<and> py_max r = Inr m"
    with b have "frame (snd (kde_cdf_plot dp True vol w))
          = set_col ''r'' (map (\<lambda>x. fl_div x m) r) (frame w)"
      by blast
    moreover from h have "get_col (frame w) ''r'' = Inr r" by blast
    ultimately show "frame (snd (kde_cdf_plot dp True vol w)) = frame w
           \<longleftrightarrow> map (\<lambda>x. fl_div x m) r = r"
      by (simp only: set_col_same)
  qed
  have c: "(\<not> has_col (frame w) ''r'' \<or> get_col (frame w) ''r'' = Inr []) \<longrightarrow>
        frame (snd (kde_cdf_plot dp True vol w)) = frame w"
    by (auto simp: kde_unfold normalise_r_cases)
  from a b b' c show ?thesis by blast
qed

theorem kde_cdf_plot_frame_effect_witness:
  "frame (snd (kde_cdf_plot (\<lambda>r. Inr (length r)) True False
      \<lparr>frame = \<lparr>nrows = 2, cols = [(''r'', [Fin 1, Fin 2])]\<rparr>, plot = []\<rparr>))
    = \<lparr>nrows = 2, cols = [(''r'', [Fin (1 / 2), Fin 1])]\<rparr>
   \<and> frame (snd (kde_cdf_plot (\<lambda>r. Inr (length r)) True False
      \<lparr>frame = \<lparr>nrows = 2, cols = [(''r'', [Fin 1, Fin (1 / 2)])]\<rparr>, plot = []\<rparr>))
    = \<lparr>nrows = 2, cols = [(''r'', [Fin 1, Fin (1 / 2)])]\<rparr>
   \<and> frame (snd (kde_cdf_plot (\<lambda>r. Inr (length r)) True False
      \<lparr>frame = \<lparr>nrows = 0, cols = [(''r'', [])]\<rparr>, plot = []\<rparr>))
    = \<lparr>nrows = 0, cols = [(''r'', [])]\<rparr>"
  using kde_cdf_plot_frame_effect [of "\<lambda>r. Inr (length r)" False
      "\<lparr>frame = \<lparr>nrows = 2, cols = [(''r'', [Fin 1, Fin 2])]\<rparr>, plot = []\<rparr>" "[Fin 1, Fin 2]" "Fin 2"]
    kde_cdf_plot_frame_effect [of "\<lambda>r. Inr (length r)" False
      "\<lparr>frame = \<lparr>nrows = 2, cols = [(''r'', [Fin 1, Fin (1 / 2)])]\<rparr>, plot = []\<rparr>"
      "[Fin 1, Fin (1 / 2)]" "Fin 1"]
    kde_cdf_plot_frame_effect [of "\<lambda>r. Inr (length r)" False
      "\<lparr>frame = \<lparr>nrows = 0, cols = [(''r'', [])]\<rparr>, plot = []\<rparr>" "[]" "Fin 0"]
  by (simp add: get_col_def set_col_def)

text \<open>
  A counterexample to C7 as it is stated: after a call with normalisation the radius
  column of the caller's frame holds \<open>0.5, 1\<close> where it held \<open>1, 2\<close>.
\<close>

theorem frame_overwritten_counterexample:
  "frame (snd (kde_cdf_plot (\<lambda>r. Inr (length r)) True False
      \<lparr>frame = \<lparr>nrows = 2, cols = [(''r'', [Fin 1, Fin 2])]\<rparr>, plot = []\<rparr>))
    = \<lparr>nrows = 2, cols = [(''r'', [Fin (1 / 2), Fin 1])]\<rparr>
   \<and> frame (snd (kde_cdf_plot (\<lambda>r. Inr (length r)) True False
      \<lparr>frame = \<lparr>nrows = 2, cols = [(''r'', [Fin 1, Fin 2])]\<rparr>, plot = []\<rparr>))
    \<noteq> \<lparr>nrows = 2, cols = [(''r'', [Fin 1, Fin 2])]\<rparr>"
  by (simp add: kde_unfold has_col_def normalise_r_cases get_col_def set_col_def
      draw_profiles_frame)

text \<open>
  C4, as the code has it. For a non-empty sequence of radii, none negative and one of
  them positive, the call with normalisation first replaces the column by the radii
  divided by their maximum and only then draws, from the new column; every normalised
  radius lies in \<open>[0, 1]\<close> and their maximum is exactly 1.
\<close>

theorem normalised_radii_unit_interval:
  assumes "get_col (frame w) ''r'' = Inr (map Fin rs)"
    and "rs \<noteq> []" and "\<forall>x\<in>set rs. 0 \<le> x" and "\<exists>x\<in>set rs. 0 < x"
  shows "kde_cdf_plot dp True vol w =
      draw_profiles dp True vol
        (w\<lparr>frame := set_col ''r'' (map (\<lambda>x. Fin (x / Max (set rs))) rs) (frame w)\<rparr>)
    \<and> get_col (set_col ''r'' (map (\<lambda>x. Fin (x / Max (set rs))) rs) (frame w)) ''r''
        = Inr (map (\<lambda>x. Fin (x / Max (set rs))) rs)
    \<and> (\<forall>x\<in>set rs. 0 \<le> x / Max (set rs) \<and> x / Max (set rs) \<le> 1)
    \<and> Max ((\<lambda>x. x / Max (set rs)) ` set rs) = 1"
proof -
  have "Max (set rs) \<noteq> 0"
    using normalised_bounds(1) [OF assms(2-4)] by simp
  then show ?thesis
    using kde_norm_run [OF assms(1,2), of dp vol] normalised_bounds(2,3) [OF assms(2-4)]
    by (simp add: get_col_set_col)
qed

theorem normalised_radii_unit_interval_witness:
  "frame (snd (kde_cdf_plot (\<lambda>r. Inr (length r)) True False
      \<lparr>frame = \<lparr>nrows = 3, cols = [(''r'', [Fin 1, Fin 4, Fin 2])]\<rparr>, plot = []\<rparr>))
    = \<lparr>nrows = 3, cols = [(''r'', [Fin (1 / 4), Fin 1, Fin (1 / 2)])]\<rparr>
   \<and> Max ((\<lambda>x. x / 4) ` {1, 4, 2 :: real}) = 1"
proof -
  let ?w = "\<lparr>frame = \<lparr>nrows = 3, cols = [(''r'', [Fin 1, Fin 4, Fin 2])]\<rparr>, plot = []\<rparr>
    :: nat world"
  have g: "get_col (frame ?w) ''r'' = Inr (map Fin [1, 4, 2])" by (simp add: get_col_def)
  have ne: "[1, 4, 2] \<noteq> ([] :: real list)" by simp
  have nonneg: "\<forall>x\<in>set [1, 4, 2 :: real]. 0 \<le> x" by simp
  have pos: "\<exists>x\<in>set [1, 4, 2 :: real]. 0 < x" by simp
  have m: "Max (set [1, 4, 2 :: real]) = 4" by simp
  show ?thesis
    using normalised_radii_unit_interval [OF g ne nonneg pos, of "\<lambda>r. Inr (length r)" False]
    by (simp add: m draw_profiles_frame set_col_def)
qed

text \<open>
  A counterexample to C4 as it is stated: for the radius of a single point at the origin
  the maximum is 0, the division yields NaN, and the normalised column holds no number
  of \<open>[0, 1]\<close>.
\<close>

theorem normalised_origin_counterexample:
  "frame (snd (kde_cdf_plot (\<lambda>r. Inr (length r)) True False
      \<lparr>frame = \<lparr>nrows = 1, cols = [(''x0'', [Fin 0]), (''r'', [Fin 0])]\<rparr>, plot = []\<rparr>))
    = \<lparr>nrows = 1, cols = [(''x0'', [Fin 0]), (''r'', [NaN])]\<rparr>"
  by (simp add: kde_unfold has_col_def normalise_r_cases get_col_def set_col_def
      draw_profiles_frame)

section \<open>Properties of the blob generator adapter\<close>

lemma collect_Inr: "collect (map (\<lambda>x. Inr (f x)) xs) = Inr (map f xs)"
  by (induction xs) simp_all

lemma df_row_DataFrame:
  assumes "i < length (rows X)" and "length (rows X ! i) = shape1 X"
  shows "df_row (DataFrame X names) i = numeric (rows X ! i)"
proof -
  have "map (\<lambda>j. Num (Fin (rows X ! i ! j))) [0..<length (rows X ! i)]
      = map (\<lambda>x. Num (Fin x)) (map (\<lambda>j. rows X ! i ! j) [0..<length (rows X ! i)])"
    by simp
  also have "\<dots> = map (\<lambda>x. Num (Fin x)) (rows X ! i)"
    by (simp only: map_nth)
  finally show ?thesis
    using assms by (simp add: df_row_def DataFrame_def numeric_def comp_def)
qed

lemma df_apply_radius_DataFrame:
  assumes "wf_array X" and "0 < shape1 X"
  shows "df_apply_rows radius (DataFrame X names)
    = Inr (map (\<lambda>p. Fin (sqrt (sum_list (map (\<lambda>x. x\<^sup>2) p)))) (rows X))"
proof -
  have len: "\<And>i. i < length (rows X) \<Longrightarrow> length (rows X ! i) = shape1 X"
    using assms(1) by (simp add: wf_array_def list_all_length)
  have "map (\<lambda>i. radius (df_row (DataFrame X names) i)) [0..<length (rows X)]
      = map (\<lambda>i. Inr (Fin (sqrt (sum_list (map (\<lambda>x. x\<^sup>2) (rows X ! i)))))) [0..<length (rows X)]"
    by (rule map_cong [OF refl]) (simp add: df_row_DataFrame len radius_numeric)
  also have "\<dots> = map (\<lambda>p. Inr (Fin (sqrt (sum_list (map (\<lambda>x. x\<^sup>2) p)))))
      (map (\<lambda>i. rows X ! i) [0..<length (rows X)])"
    by (simp add: comp_def)
  also have "\<dots> = map (\<lambda>p. Inr (Fin (sqrt (sum_list (map (\<lambda>x. x\<^sup>2) p))))) (rows X)"
    by (simp only: map_nth)
  finally have "map (\<lambda>i. radius (df_row (DataFrame X names) i)) [0..<length (rows X)]
      = map (\<lambda>p. Inr (Fin (sqrt (sum_list (map (\<lambda>x. x\<^sup>2) p))))) (rows X)" .
  moreover have "cols (DataFrame X names) \<noteq> []" "nrows (DataFrame X names) = length (rows X)"
    using assms(2) by (simp_all add: DataFrame_def)
  ultimately show ?thesis
    by (simp add: df_apply_rows_def collect_Inr)
qed

lemma update_fresh: "c \<notin> fst ` set al \<Longrightarrow> AList.update c v al = al @ [(c, v)]"
  by (induction al) auto

lemma r_not_col_name: "''r'' \<notin> fst ` set (cols (DataFrame X (map col_name [0..<shape1 X])))"
  by (auto simp: DataFrame_def col_name_def)

text \<open>
  C9. Whenever the generator of scikit-learn returns what it documents, \<open>n\<close> points of
  \<open>d\<close> coordinates and \<open>n\<close> labels below \<open>k\<close>, the adapter returns this point set
  and these labels as they are: exactly \<open>n\<close> points, each of dimension \<open>d\<close>, each
  with one of the \<open>k\<close> labels. It returns them with a frame of the \<open>d\<close> coordinate
  columns and that frame extended by the column \<open>r\<close> of the radii of the points. An
  exception of the generator is the exception of the adapter.
\<close>

theorem make_blob_df_points_and_labels:
  "(make_blobs n d k box = Inl e \<longrightarrow> make_blob_df make_blobs n d k box = Inl e)
   \<and> (make_blobs n d k box = Inr (X, y) \<and> blobs_shape n d k (X, y) \<longrightarrow>
        (\<exists>r. make_blob_df make_blobs n d k box
              = Inr (X, set_col ''r'' r (DataFrame X (map col_name [0..<d])),
                     DataFrame X (map col_name [0..<d]), y)
          \<and> length r = n
          \<and> (0 < d \<longrightarrow> r = map (\<lambda>p. Fin (sqrt (sum_list (map (\<lambda>x. x\<^sup>2) p)))) (rows X))
          \<and> cols (set_col ''r'' r (DataFrame X (map col_name [0..<d])))
              = cols (DataFrame X (map col_name [0..<d])) @ [(''r'', r)]
          \<and> length (cols (DataFrame X (map col_name [0..<d]))) = d
          \<and> nrows (DataFrame X (map col_name [0..<d])) = n
          \<and> length (rows X) = n \<and> (\<forall>p\<in>set (rows X). length p = d)
          \<and> length y = n \<and> (\<forall>l\<in>set y. l < k)))"
proof (intro conjI impI)
  assume "make_blobs n d k box = Inl e"
  then show "make_blob_df make_blobs n d k box = Inl e"
    by (simp add: make_blob_df_def)
next
  assume a: "make_blobs n d k box = Inr (X, y) \<and> blobs_shape n d k (X, y)"
  let ?df = "DataFrame X (map col_name [0..<d])"
  let ?r = "if d = 0 then replicate n NaN
             else map (\<lambda>p. Fin (sqrt (sum_list (map (\<lambda>x. x\<^sup>2) p)))) (rows X)"
  from a have shape: "length (rows X) = n" "shape1 X = d" "wf_array X"
    "length y = n" "list_all (\<lambda>l. l < k) y"
    by (simp_all add: blobs_shape_def)
  have ap: "df_apply_rows radius ?df = Inr ?r"
  proof (cases "d = 0")
    case True
    with shape show ?thesis by (simp add: df_apply_rows_def DataFrame_def)
  next
    case False
    with shape df_apply_radius_DataFrame [of X "map col_name [0..<d]"] show ?thesis by simp
  qed
  have run: "make_blob_df make_blobs n d k box = Inr (X, set_col ''r'' ?r ?df, ?df, y)"
    using a shape(2) ap by (simp add: make_blob_df_def Let_def)
  have fresh: "cols (set_col ''r'' ?r ?df) = cols ?df @ [(''r'', ?r)]"
    using r_not_col_name [of X] shape(2) by (simp add: set_col_def update_fresh)
  have dims: "\<forall>p\<in>set (rows X). length p = d"
    using shape(2,3) by (simp add: wf_array_def list_all_iff)
  have labels: "\<forall>l\<in>set y. l < k"
    using shape(5) by (simp add: list_all_iff)
  have frame_shape: "length (cols ?df) = d" "nrows ?df = n"
    using shape(1,2) by (simp_all add: DataFrame_def)
  have len_r: "length ?r = n"
    using shape(1) by simp
  have pos_r: "0 < d \<longrightarrow> ?r = map (\<lambda>p. Fin (sqrt (sum_list (map (\<lambda>x. x\<^sup>2) p)))) (rows X)"
    by simp
  show "\<exists>r. make_blob_df make_blobs n d k box
              = Inr (X, set_col ''r'' r (DataFrame X (map col_name [0..<d])),
                     DataFrame X (map col_name [0..<d]), y)
          \<and> length r = n
          \<and> (0 < d \<longrightarrow> r = map (\<lambda>p. Fin (sqrt (sum_list (map (\<lambda>x. x\<^sup>2) p)))) (rows X))
          \<and> cols (set_col ''r'' r (DataFrame X (map col_name [0..<d])))
              = cols (DataFrame X (map col_name [0..<d])) @ [(''r'', r)]
          \<and> length (cols (DataFrame X (map col_name [0..<d]))) = d
          \<and> nrows (DataFrame X (map col_name [0..<d])) = n
          \<and> length (rows X) = n \<and> (\<forall>p\<in>set (rows X). length p = d)
          \<and> length y = n \<and> (\<forall>l\<in>set y. l < k)"
    using run len_r pos_r fresh dims labels frame_shape shape(1,4) by blast
qed

text \<open>
  The scenario of the specification, on a generator that returns 100 points at the origin
  of the plane with the labels 0, 1, 2 in turn.
\<close>

theorem make_blob_df_points_and_labels_witness:
  "\<exists>X X_df X_df_no_r y.
      make_blob_df
        (\<lambda>n d k box. Inr (\<lparr>shape1 = d, rows = replicate n (replicate d 0)\<rparr>,
                           map (\<lambda>i. i mod k) [0..<n]))
        100 2 3 (- 10, 10) = Inr (X, X_df, X_df_no_r, y)
      \<and> length (rows X) = 100 \<and> (\<forall>p\<in>set (rows X). length p = 2)
      \<and> length y = 100 \<and> (\<forall>l\<in>set y. l < 3)"
proof -
  let ?mb = "\<lambda>(n::nat) (d::nat) (k::nat) (box::real \<times> real).
      Inr (\<lparr>shape1 = d, rows = replicate n (replicate d (0::real))\<rparr>, map (\<lambda>i. i mod k) [0..<n])
        :: error + (array2d \<times> nat list)"
  let ?X = "\<lparr>shape1 = 2, rows = replicate 100 (replicate 2 (0::real))\<rparr>"
  let ?y = "map (\<lambda>i. i mod 3) [0..<100::nat]"
  have call: "?mb 100 2 3 (- 10, 10) = Inr (?X, ?y)" by simp
  have shape: "blobs_shape 100 2 3 (?X, ?y)"
    by (simp add: blobs_shape_def wf_array_def list_all_iff)
  show ?thesis
    using make_blob_df_points_and_labels [of ?mb 100 2 3 "(- 10, 10)" _ ?X ?y] call shape
    by blast
qed

section \<open>Properties of the histogram\<close>

lemma edge_0: "edge lo hi b 0 = lo"
  by (simp add: edge_def)

lemma edge_b: "0 < b \<Longrightarrow> edge lo hi b b = hi"
  by (simp add: edge_def)

lemma edge_strict_mono:
  assumes "lo < hi" and "0 < b" and "i < j"
  shows "edge lo hi b i < edge lo hi b j"
proof -
  have "real i * (hi - lo) < real j * (hi - lo)"
    using assms(1,3) by simp
  then have "real i * (hi - lo) / real b < real j * (hi - lo) / real b"
    using assms(2) by (simp add: divide_strict_right_mono)
  then show ?thesis by (simp add: edge_def)
qed

lemma edge_mono:
  assumes "lo < hi" and "0 < b" and "i \<le> j"
  shows "edge lo hi b i \<le> edge lo hi b j"
proof (cases "i = j")
  case True
  then show ?thesis by simp
next
  case False
  with assms(3) have "i < j" by simp
  then show ?thesis using edge_strict_mono [OF assms(1,2)] by (simp add: less_imp_le)
qed

lemma edge_step: "0 < b \<Longrightarrow> edge lo hi b (Suc i) - edge lo hi b i = (hi - lo) / real b"
  by (simp add: edge_def field_simps)

lemma length_linspace: "length (linspace lo hi b) = Suc b"
  by (simp add: linspace_def)

lemma nth_linspace: "i \<le> b \<Longrightarrow> linspace lo hi b ! i = edge lo hi b i"
proof -
  assume "i \<le> b"
  then have "i < length [0..<Suc b]" by simp
  then have "map (edge lo hi b) [0..<Suc b] ! i = edge lo hi b ([0..<Suc b] ! i)"
    by (rule nth_map)
  also have "[0..<Suc b] ! i = i"
    using \<open>i \<le> b\<close> by (metis add_0 le_imp_less_Suc nth_upt)
  finally show ?thesis by (simp add: linspace_def)
qed

lemma hd_linspace: "hd (linspace lo hi b) = lo"
  by (simp add: linspace_def edge_0 upt_conv_Cons del: upt_Suc)

lemma last_linspace: "0 < b \<Longrightarrow> last (linspace lo hi b) = hi"
  by (simp add: linspace_def edge_b)

text \<open>Membership in bin \<open>i\<close>, in terms of the edges: only the last bin is closed.\<close>

lemma in_bin_linspace:
  assumes "i < b"
  shows "in_bin (linspace lo hi b) b i x
    \<longleftrightarrow> edge lo hi b i \<le> x \<and> (if Suc i = b then x \<le> hi else x < edge lo hi b (Suc i))"
proof -
  have "linspace lo hi b ! i = edge lo hi b i" "linspace lo hi b ! Suc i = edge lo hi b (Suc i)"
    using assms by (simp_all add: nth_linspace)
  moreover have "Suc i = b \<Longrightarrow> edge lo hi b (Suc i) = hi"
    using assms edge_b [of b lo hi] by simp
  ultimately show ?thesis by (auto simp: in_bin_def)
qed

lemma length_filter_disjoint:
  "(\<And>x. x \<in> set a \<Longrightarrow> \<not> (P x \<and> Q x)) \<Longrightarrow>
   length (filter P a) + length (filter Q a) = length (filter (\<lambda>x. P x \<or> Q x) a)"
  by (induction a) auto

lemma length_filter_mono:
  "(\<And>x. x \<in> set a \<Longrightarrow> P x \<Longrightarrow> Q x) \<Longrightarrow> length (filter P a) \<le> length (filter Q a)"
  by (induction a) auto

text \<open>The bins \<open>0, \<dots>, k - 1\<close> together hold the data from \<open>lo\<close> up to edge \<open>k\<close>.\<close>

lemma bins_upto:
  assumes "lo < hi" and "0 < b" and "k \<le> b"
  shows "sum_list (map (\<lambda>i. length (filter (in_bin (linspace lo hi b) b i) a)) [0..<k])
    = length (filter (\<lambda>x. lo \<le> x \<and> (if k = b then x \<le> hi else x < edge lo hi b k)) a)"
  using assms(3)
proof (induction k)
  case 0
  have "filter (\<lambda>x. lo \<le> x \<and> x < lo) a = []" by (induction a) auto
  with assms(2) show ?case by (simp add: edge_0)
next
  case (Suc k)
  then have k: "k < b" by simp
  let ?P = "\<lambda>x. lo \<le> x \<and> x < edge lo hi b k"
  let ?Q = "in_bin (linspace lo hi b) b k"
  let ?R = "\<lambda>x. lo \<le> x \<and> (if Suc k = b then x \<le> hi else x < edge lo hi b (Suc k))"
  have lo_k: "lo \<le> edge lo hi b k"
    using edge_mono [OF assms(1,2), of 0 k] by (simp add: edge_0)
  have k_Suc: "edge lo hi b k < edge lo hi b (Suc k)"
    using edge_strict_mono [OF assms(1,2), of k "Suc k"] by simp
  have Suc_hi: "edge lo hi b (Suc k) \<le> hi"
    using edge_mono [OF assms(1,2), of "Suc k" b] Suc.prems assms(2) by (simp add: edge_b)
  have Q: "\<And>x. ?Q x \<longleftrightarrow> edge lo hi b k \<le> x
      \<and> (if Suc k = b then x \<le> hi else x < edge lo hi b (Suc k))"
    using k by (rule in_bin_linspace)
  have split: "\<And>x. (?P x \<or> ?Q x) \<longleftrightarrow> ?R x"
    using lo_k k_Suc Suc_hi by (auto simp: Q)
  have disj: "\<And>x. x \<in> set a \<Longrightarrow> \<not> (?P x \<and> ?Q x)"
    by (auto simp: Q)
  have "sum_list (map (\<lambda>i. length (filter (in_bin (linspace lo hi b) b i) a)) [0..<Suc k])
      = length (filter ?P a) + length (filter ?Q a)"
    using Suc.IH k by simp
  also have "\<dots> = length (filter (\<lambda>x. ?P x \<or> ?Q x) a)"
    using disj by (rule length_filter_disjoint)
  also have "\<dots> = length (filter ?R a)"
    by (simp only: split)
  finally show ?case .
qed

lemma outer_edges_cases:
  assumes "a \<noteq> []" and "outer_edges a = (lo, hi)"
  shows "(Min (set a) = Max (set a) \<and> lo = Min (set a) - 1 / 2 \<and> hi = Max (set a) + 1 / 2)
    \<or> (Min (set a) \<noteq> Max (set a) \<and> lo = Min (set a) \<and> hi = Max (set a))"
  using assms by (auto simp: outer_edges_def Let_def split: if_splits)

lemma outer_edges_range:
  assumes "outer_edges a = (lo, hi)"
  shows "lo < hi" and "\<And>x. x \<in> set a \<Longrightarrow> lo \<le> x \<and> x \<le> hi"
proof -
  define m where "m = Min (set a)"
  define M where "M = Max (set a)"
  have cases: "a \<noteq> [] \<Longrightarrow> (m = M \<and> lo = m - 1 / 2 \<and> hi = M + 1 / 2)
      \<or> (m \<noteq> M \<and> lo = m \<and> hi = M)"
    unfolding m_def M_def using assms by (simp add: outer_edges_cases)
  show "lo < hi"
  proof (cases "a = []")
    case True
    with assms show ?thesis by (simp add: outer_edges_def)
  next
    case False
    then have "m \<le> M" by (simp add: m_def M_def)
    with cases [OF False] show ?thesis by linarith
  qed
  fix x assume x: "x \<in> set a"
  then have "m \<le> x" "x \<le> M" by (simp_all add: m_def M_def)
  moreover from x have "a \<noteq> []" by auto
  ultimately show "lo \<le> x \<and> x \<le> hi"
    using cases by linarith
qed

lemma sum_bin_counts:
  assumes "outer_edges a = (lo, hi)" and "0 < b"
  shows "sum_list (bin_counts (linspace lo hi b) b a) = length a"
proof -
  have "filter (\<lambda>x. lo \<le> x \<and> x \<le> hi) a = a"
    using outer_edges_range(2) [OF assms(1)] by (simp add: filter_id_conv)
  then show ?thesis
    using bins_upto [OF outer_edges_range(1) [OF assms(1)] assms(2), of b a]
    by (simp add: bin_counts_def)
qed

lemma np_histogram_run:
  assumes "1 \<le> bins" and "outer_edges a = (lo, hi)"
  shows "np_histogram a bins
    = Inr (linspace lo hi (nat bins), bin_counts (linspace lo hi (nat bins)) (nat bins) a)"
  using assms by (simp add: np_histogram_def Let_def)

lemma np_histogram_fails: "isl (np_histogram a bins) \<longleftrightarrow> bins < 1"
  by (simp add: np_histogram_def Let_def split: prod.splits)

lemma length_pdist_rows: "2 * length (pdist_rows ps) = length ps * (length ps - 1)"
proof (induction ps)
  case Nil
  show ?case by simp
next
  case (Cons p ps)
  have "2 * length ps + length ps * (length ps - 1) = Suc (length ps) * length ps"
    by (cases "length ps") simp_all
  with Cons show ?case by simp
qed

lemma length_pdist: "length (pdist X) = length (rows X) * (length (rows X) - 1) div 2"
  using length_pdist_rows [of "rows X"] by (simp add: pdist_def)

lemma pdist_few: "length (rows X) < 2 \<Longrightarrow> pdist X = []"
  using length_pdist [of X] by (cases "rows X") (auto simp: pdist_def)

lemma in_sample_dist_cases:
  "in_sample_dist X n p =
     (case np_histogram (pdist X) n of
        Inl e \<Rightarrow> (Inl e, p @ [NewFigure])
      | Inr (es, cs) \<Rightarrow>
          (Inr (), p @ [NewFigure, Hist es cs, XLabel ''inter-sample distance'', YLabel ''count'']))"
  by (simp add: in_sample_dist_def plt_hist_def draw_def raise_def split: sum.splits prod.splits)

lemma sqrt_9: "sqrt 9 = 3"
proof -
  have "sqrt ((3::real)\<^sup>2) = 3" by (simp only: real_sqrt_abs abs_numeral)
  then show ?thesis by simp
qed

lemma pdist_line: "pdist \<lparr>shape1 = 1, rows = [[0], [1], [2], [3]]\<rparr> = [1, 2, 3, 1, 2, 1]"
  by (simp add: pdist_def euclid_dist_def sqrt_9)

lemma upt_4: "[0..<4] = [0, 1, 2, 3]"
  by (simp add: upt_rec)

lemma histogram_line:
  "np_histogram [1, 2, 3, 1, 2, 1] 3 = Inr ([1, 5 / 3, 7 / 3, 3], [3, 2, 1])"
proof -
  have oe: "outer_edges [1, 2, 3, 1, 2, 1] = (1, 3)"
    by (simp add: outer_edges_def)
  have es: "linspace 1 3 3 = [1, 5 / 3, 7 / 3, 3]"
    by (simp add: linspace_def edge_def upt_4 numeral_eq_Suc [symmetric] del: upt_Suc)
  have "[0..<3] = [0, 1, 2]" by (simp add: upt_rec)
  then have cs: "bin_counts [1, 5 / 3, 7 / 3, 3] 3 [1, 2, 3, 1, 2, 1] = [3, 2, 1]"
    by (simp add: bin_counts_def in_bin_def)
  have "(1::int) \<le> 3" by simp
  from np_histogram_run [OF this oe] show ?thesis
    by (simp add: es cs)
qed

lemma in_sample_dist_line:
  "in_sample_dist \<lparr>shape1 = 1, rows = [[0], [1], [2], [3]]\<rparr> 3 p
     = (Inr (), p @ [NewFigure, Hist [1, 5 / 3, 7 / 3, 3] [3, 2, 1],
                 XLabel ''inter-sample distance'', YLabel ''count''])"
  unfolding in_sample_dist_cases pdist_line histogram_line by simp

text \<open>
  C2, as the code has it. For a point set of \<open>n \<ge> 2\<close> points and a bin count
  \<open>b \<ge> 1\<close> the function draws the histogram of the \<open>n (n - 1) / 2\<close> pairwise
  Euclidean distances in \<open>b\<close> bins of equal width. The bins span the range from the
  smallest to the largest distance (widened by one half on each side when all distances
  are equal), not the range from 0. There are \<open>b + 1\<close> edges and \<open>b\<close> counts, and the
  counts sum to \<open>n (n - 1) / 2\<close>.
\<close>

theorem in_sample_dist_histogram:
  assumes "2 \<le> length (rows X)" and "1 \<le> b"
  shows "\<exists>es cs lo hi.
      in_sample_dist X b p
        = (Inr (), p @ [NewFigure, Hist es cs, XLabel ''inter-sample distance'', YLabel ''count''])
      \<and> length (pdist X) = length (rows X) * (length (rows X) - 1) div 2
      \<and> pdist X \<noteq> []
      \<and> ((Min (set (pdist X)) \<noteq> Max (set (pdist X))
             \<and> lo = Min (set (pdist X)) \<and> hi = Max (set (pdist X)))
          \<or> (Min (set (pdist X)) = Max (set (pdist X))
             \<and> lo = Min (set (pdist X)) - 1 / 2 \<and> hi = Max (set (pdist X)) + 1 / 2))
      \<and> lo < hi
      \<and> length es = nat b + 1 \<and> hd es = lo \<and> last es = hi
      \<and> (\<forall>i<nat b. es ! Suc i - es ! i = (hi - lo) / real (nat b))
      \<and> length cs = nat b
      \<and> (\<forall>i<nat b. cs ! i = length (filter (in_bin es (nat b) i) (pdist X)))
      \<and> sum_list cs = length (rows X) * (length (rows X) - 1) div 2"
proof -
  obtain lo hi where oe: "outer_edges (pdist X) = (lo, hi)"
    by (cases "outer_edges (pdist X)")
  let ?es = "linspace lo hi (nat b)"
  let ?cs = "bin_counts ?es (nat b) (pdist X)"
  have b: "0 < nat b" using assms(2) by simp
  have "2 \<le> length (rows X) * (length (rows X) - 1)"
  proof -
    have "2 * 1 \<le> length (rows X) * (length (rows X) - 1)"
      using assms(1) by (intro mult_le_mono) simp_all
    then show ?thesis by simp
  qed
  then have "0 < length (pdist X)"
    by (simp add: length_pdist)
  then have ne: "pdist X \<noteq> []" by auto
  have run: "in_sample_dist X b p
      = (Inr (), p @ [NewFigure, Hist ?es ?cs, XLabel ''inter-sample distance'', YLabel ''count''])"
    by (simp add: in_sample_dist_cases np_histogram_run [OF assms(2) oe])
  have range: "(Min (set (pdist X)) \<noteq> Max (set (pdist X))
             \<and> lo = Min (set (pdist X)) \<and> hi = Max (set (pdist X)))
          \<or> (Min (set (pdist X)) = Max (set (pdist X))
             \<and> lo = Min (set (pdist X)) - 1 / 2 \<and> hi = Max (set (pdist X)) + 1 / 2)"
    using outer_edges_cases [OF ne oe] by blast
  have width: "\<forall>i<nat b. ?es ! Suc i - ?es ! i = (hi - lo) / real (nat b)"
    using b by (simp add: nth_linspace edge_step)
  have counts: "\<forall>i<nat b. ?cs ! i = length (filter (in_bin ?es (nat b) i) (pdist X))"
    by (simp add: bin_counts_def)
  have total: "sum_list ?cs = length (rows X) * (length (rows X) - 1) div 2"
    using sum_bin_counts [OF oe b] by (simp add: length_pdist)
  have shape: "length ?es = nat b + 1" "hd ?es = lo" "last ?es = hi" "length ?cs = nat b"
    using b by (simp_all add: length_linspace hd_linspace last_linspace bin_counts_def)
  show ?thesis
    using run length_pdist [of X] ne range outer_edges_range(1) [OF oe] shape width counts total
    by blast
qed

text \<open>
  The scenario of the specification: four points on a line, three bins. The six
  distances fall into the bins from 1 to 3 with the counts 3, 2 and 1.
\<close>

theorem in_sample_dist_histogram_witness:
  "in_sample_dist \<lparr>shape1 = 1, rows = [[0], [1], [2], [3]]\<rparr> 3 ([] :: unit draw list)
     = (Inr (), [NewFigure, Hist [1, 5 / 3, 7 / 3, 3] [3, 2, 1],
                 XLabel ''inter-sample distance'', YLabel ''count''])
   \<and> sum_list [3, 2, 1 :: nat] = 6"
proof -
  let ?X = "\<lparr>shape1 = 1, rows = [[0], [1], [2], [3 :: real]]\<rparr>"
  have n: "2 \<le> length (rows ?X)" by simp
  have b: "(1::int) \<le> 3" by simp
  from in_sample_dist_histogram [OF n b, of "[] :: unit draw list"]
  obtain es cs where
    run: "in_sample_dist ?X 3 ([] :: unit draw list)
      = (Inr (), [] @ [NewFigure, Hist es cs, XLabel ''inter-sample distance'', YLabel ''count''])"
    and total: "sum_list cs = length (rows ?X) * (length (rows ?X) - 1) div 2"
    by blast
  have line: "in_sample_dist ?X 3 ([] :: unit draw list)
     = (Inr (), [NewFigure, Hist [1, 5 / 3, 7 / 3, 3] [3, 2, 1],
                 XLabel ''inter-sample distance'', YLabel ''count''])"
    using in_sample_dist_line [of "[] :: unit draw list"] by simp
  from run line have "cs = [3, 2, 1]" by simp
  with total line show ?thesis by simp
qed

text \<open>
  A counterexample to C2 as it is stated: for the four points on a line the first edge
  of the histogram is 1, the smallest distance, and not 0.
\<close>

theorem histogram_range_counterexample:
  "in_sample_dist \<lparr>shape1 = 1, rows = [[0], [1], [2], [3]]\<rparr> 3 ([] :: unit draw list)
     = (Inr (), [NewFigure, Hist [1, 5 / 3, 7 / 3, 3] [3, 2, 1],
                 XLabel ''inter-sample distance'', YLabel ''count''])
   \<and> hd [1, 5 / 3, 7 / 3, 3 :: real] \<noteq> 0"
  unfolding in_sample_dist_line by simp

section \<open>Properties of the cumulative histogram\<close>

lemma length_cumsum_from: "length (cumsum_from acc cs) = length cs"
  by (induction cs arbitrary: acc) simp_all

lemma nth_cumsum_from:
  "i < length cs \<Longrightarrow> cumsum_from acc cs ! i = acc + sum_list (take (Suc i) cs)"
proof (induction cs arbitrary: acc i)
  case Nil
  then show ?case by simp
next
  case (Cons c cs)
  show ?case
  proof (cases i)
    case 0
    then show ?thesis by simp
  next
    case (Suc j)
    with Cons.prems have "j < length cs" by simp
    from Cons.IH [OF this, of "acc + c"] Suc show ?thesis by simp
  qed
qed

lemma nth_cumsum_bin_counts:
  assumes "i < b"
  shows "cumsum (bin_counts es b a) ! i
    = sum_list (map (\<lambda>j. length (filter (in_bin es b j) a)) [0..<Suc i])"
proof -
  have "take (Suc i) [0..<b] = [0..<Suc i]"
    using assms by (simp add: take_upt del: upt_Suc)
  then have "take (Suc i) (bin_counts es b a)
      = map (\<lambda>j. length (filter (in_bin es b j) a)) [0..<Suc i]"
    by (simp add: bin_counts_def take_map del: upt_Suc)
  then show ?thesis
    using assms by (simp add: cumsum_def nth_cumsum_from bin_counts_def del: upt_Suc)
qed

text \<open>The cumulative count of bin \<open>i\<close>: the data left of the right edge of the bin.\<close>

lemma cumulative_count:
  assumes "outer_edges a = (lo, hi)" and "i < b"
  shows "cumsum (bin_counts (linspace lo hi b) b a) ! i
    = length (filter (\<lambda>x. Suc i = b \<or> x < linspace lo hi b ! Suc i) a)"
proof -
  have b: "0 < b" using assms(2) by simp
  have "cumsum (bin_counts (linspace lo hi b) b a) ! i
      = length (filter (\<lambda>x. lo \<le> x \<and> (if Suc i = b then x \<le> hi else x < edge lo hi b (Suc i))) a)"
    using bins_upto [OF outer_edges_range(1) [OF assms(1)] b, of "Suc i" a] assms(2)
    by (simp only: nth_cumsum_bin_counts [OF assms(2)])
  also have "\<dots> = length (filter (\<lambda>x. Suc i = b \<or> x < linspace lo hi b ! Suc i) a)"
  proof -
    have "filter (\<lambda>x. lo \<le> x \<and> (if Suc i = b then x \<le> hi else x < edge lo hi b (Suc i))) a
        = filter (\<lambda>x. Suc i = b \<or> x < linspace lo hi b ! Suc i) a"
      using outer_edges_range(2) [OF assms(1)] assms(2)
      by (intro filter_cong refl) (auto simp: nth_linspace)
    then show ?thesis by simp
  qed
  finally show ?thesis .
qed

lemma some_bin:
  assumes "lo < hi" and "0 < b" and "lo \<le> x" and "x \<le> hi"
  shows "\<exists>i<b. in_bin (linspace lo hi b) b i x"
proof (rule ccontr)
  assume "\<not> (\<exists>i<b. in_bin (linspace lo hi b) b i x)"
  then have "map (\<lambda>i. length (filter (in_bin (linspace lo hi b) b i) [x])) [0..<b]
      = map (\<lambda>i. 0) [0..<b]"
    by (intro map_cong refl) simp
  then have "sum_list (map (\<lambda>i. length (filter (in_bin (linspace lo hi b) b i) [x])) [0..<b]) = 0"
    by simp
  with bins_upto [OF assms(1,2), of b "[x]"] assms(3,4) show False by simp
qed

lemma bins_ordered:
  assumes "lo < hi" and "0 < b" and "i < b" and "j < b"
    and "in_bin (linspace lo hi b) b i x" and "in_bin (linspace lo hi b) b j y" and "x \<le> y"
  shows "i \<le> j"
proof (rule ccontr)
  assume "\<not> i \<le> j"
  then have ji: "Suc j \<le> i" by simp
  with assms(3) have "Suc j \<noteq> b" by simp
  with assms(4,6) have "y < edge lo hi b (Suc j)"
    by (simp add: in_bin_linspace)
  also have "edge lo hi b (Suc j) \<le> edge lo hi b i"
    using ji by (rule edge_mono [OF assms(1,2)])
  also have "edge lo hi b i \<le> x"
    using assms(3,5) by (simp add: in_bin_linspace)
  finally show False using assms(7) by simp
qed

lemma cdf_at_Some:
  "cdf_at es vs x = Some v \<Longrightarrow> \<exists>i<length vs. in_bin es (length vs) i x \<and> v = vs ! i"
  by (auto simp: cdf_at_def find_Some_iff)

lemma cdf_at_defined:
  "\<exists>i<length vs. in_bin es (length vs) i x \<Longrightarrow> \<exists>v. cdf_at es vs x = Some v"
proof -
  assume "\<exists>i<length vs. in_bin es (length vs) i x"
  then have "find (\<lambda>i. in_bin es (length vs) i x) [0..<length vs] \<noteq> None"
    by (auto simp: find_None_iff)
  then show ?thesis by (auto simp: cdf_at_def)
qed

lemma finite_values_Fin: "finite_values (map Fin rs) = Some rs"
  by (induction rs) simp_all

lemma filter_NaN_Fin: "filter (\<lambda>x. x \<noteq> NaN) (map Fin rs) = map Fin rs"
  by (induction rs) simp_all

lemma series_hist_cdf_Fin:
  assumes "rs \<noteq> []" and "outer_edges rs = (lo, hi)"
  shows "series_hist_cdf (map Fin rs) (int (length rs))
    = Inr (linspace lo hi (length rs),
           map (\<lambda>c. Fin (real c / real (length rs)))
             (cumsum (bin_counts (linspace lo hi (length rs)) (length rs) rs)))"
proof -
  have n: "0 < length rs" "1 \<le> int (length rs)"
    using assms(1) by (cases rs, simp, simp)+
  let ?es = "linspace lo hi (length rs)"
  let ?cs = "bin_counts ?es (length rs) rs"
  have total: "sum_list ?cs = length rs"
    using assms(2) n(1) by (rule sum_bin_counts)
  have "series_hist_cdf (map Fin rs) (int (length rs))
      = Inr (?es, map (\<lambda>c. fl_div (Fin (real c)) (Fin (real (sum_list ?cs)))) (cumsum ?cs))"
    using n by (simp add: series_hist_cdf_def filter_NaN_Fin finite_values_Fin
        np_histogram_run [OF n(2) assms(2)] del: fl_div.simps)
  also have "map (\<lambda>c. fl_div (Fin (real c)) (Fin (real (sum_list ?cs)))) (cumsum ?cs)
      = map (\<lambda>c. Fin (real c / real (length rs))) (cumsum ?cs)"
    using n(1) by (simp add: total)
  finally show ?thesis .
qed

text \<open>
  The cumulative histogram of a column of finite values, as \<open>hist_cdf\<close> draws it.
\<close>

lemma hist_cdf_profile:
  assumes "rs \<noteq> []" and "get_col (frame w) ''r'' = Inr (map Fin rs)"
  shows "\<exists>es vs.
      hist_cdf w = (Inr (), w\<lparr>plot := plot w @ [CumHist es vs]\<rparr>)
      \<and> series_hist_cdf (map Fin rs) (int (length rs)) = Inr (es, vs)
      \<and> length vs = length rs
      \<and> (\<forall>i<length rs. vs ! i =
            Fin (real (length (filter (\<lambda>v. Suc i = length rs \<or> v < es ! Suc i) rs))
                 / real (length rs)))
      \<and> (\<forall>i j. i \<le> j \<and> j < length rs \<longrightarrow> (\<exists>c c'. vs ! i = Fin c \<and> vs ! j = Fin c' \<and> c \<le> c'))
      \<and> (\<forall>x\<in>set rs. \<exists>c. cdf_at es vs x = Some (Fin c) \<and> ecdf rs x \<le> c \<and> c \<le> 1)
      \<and> (\<forall>x y c c'. x \<le> y \<and> cdf_at es vs x = Some (Fin c) \<and> cdf_at es vs y = Some (Fin c')
            \<longrightarrow> c \<le> c')
      \<and> cdf_at es vs (Max (set rs)) = Some (Fin 1)"
proof -
  obtain lo hi where oe: "outer_edges rs = (lo, hi)"
    by (cases "outer_edges rs")
  define N where "N = length rs"
  define es where "es = linspace lo hi N"
  define F where "F i = length (filter (\<lambda>v. Suc i = N \<or> v < es ! Suc i) rs)" for i
  define vs where "vs = map (\<lambda>c. Fin (real c / real N)) (cumsum (bin_counts es N rs))"
  have N: "0 < N" using assms(1) by (simp add: N_def)
  have lohi: "lo < hi" using oe by (rule outer_edges_range(1))
  have inside: "\<And>x. x \<in> set rs \<Longrightarrow> lo \<le> x \<and> x \<le> hi"
    using oe by (rule outer_edges_range(2))
  have len: "length vs = N"
    by (simp add: vs_def cumsum_def length_cumsum_from bin_counts_def)
  have series: "series_hist_cdf (map Fin rs) (int (length rs)) = Inr (es, vs)"
    using series_hist_cdf_Fin [OF assms(1) oe] by (simp add: es_def vs_def N_def)
  have run: "hist_cdf w = (Inr (), w\<lparr>plot := plot w @ [CumHist es vs]\<rparr>)"
    using assms(2) series by (simp add: hist_cdf_def with_r_def plot_cmd_def)
  have val: "vs ! i = Fin (real (F i) / real N)" if "i < N" for i
  proof -
    have "cumsum (bin_counts es N rs) ! i = F i"
      using cumulative_count [OF oe that] by (simp add: es_def F_def)
    moreover have "i < length (cumsum (bin_counts es N rs))"
      using that by (simp add: cumsum_def length_cumsum_from bin_counts_def)
    ultimately show ?thesis by (simp add: vs_def)
  qed
  have F_mono: "F i \<le> F j" if "i \<le> j" and "j < N" for i j
    unfolding F_def
  proof (rule length_filter_mono)
    fix v assume "Suc i = N \<or> v < es ! Suc i"
    then show "Suc j = N \<or> v < es ! Suc j"
    proof
      assume "Suc i = N"
      with that show ?thesis by simp
    next
      assume v: "v < es ! Suc i"
      have "edge lo hi N (Suc i) \<le> edge lo hi N (Suc j)"
        using that(1) by (intro edge_mono [OF lohi N]) simp
      with v that show ?thesis by (simp add: es_def nth_linspace)
    qed
  qed
  have F_le: "F i \<le> N" for i
    by (simp add: F_def N_def)
  have F_ecdf: "length (filter (\<lambda>v. v \<le> x) rs) \<le> F i"
    if "i < N" and "in_bin es N i x" for i x
    unfolding F_def
  proof (rule length_filter_mono)
    fix v assume "v \<le> x"
    moreover have "Suc i = N \<or> x < es ! Suc i"
      using that(2) by (auto simp: in_bin_def split: if_splits)
    ultimately show "Suc i = N \<or> v < es ! Suc i" by auto
  qed
  have at_bin: "\<exists>i<N. in_bin es N i x \<and> c = real (F i) / real N"
    if "cdf_at es vs x = Some (Fin c)" for x c
  proof -
    from cdf_at_Some [OF that] obtain i
      where i: "i < N" "in_bin es N i x" "Fin c = vs ! i"
      by (auto simp: len)
    with val [OF i(1)] show ?thesis by auto
  qed
  have observed: "\<exists>c. cdf_at es vs x = Some (Fin c) \<and> ecdf rs x \<le> c \<and> c \<le> 1"
    if "x \<in> set rs" for x
  proof -
    from inside [OF that] some_bin [OF lohi N, of x]
    have "\<exists>i<length vs. in_bin es (length vs) i x" by (simp add: len es_def)
    then obtain v where v: "cdf_at es vs x = Some v" using cdf_at_defined by blast
    from cdf_at_Some [OF v] obtain i where i: "i < N" "in_bin es N i x" "v = vs ! i"
      by (auto simp: len)
    have c: "v = Fin (real (F i) / real N)" using i(3) val [OF i(1)] by simp
    have "real (length (filter (\<lambda>v. v \<le> x) rs)) / real N \<le> real (F i) / real N"
      using F_ecdf [OF i(1,2)] N by (simp add: divide_right_mono)
    moreover have "real (F i) / real N \<le> 1"
      using F_le [of i] N by simp
    ultimately show ?thesis
      using v c by (simp add: ecdf_def N_def)
  qed
  have monotone: "c \<le> c'"
    if "x \<le> y" and "cdf_at es vs x = Some (Fin c)" and "cdf_at es vs y = Some (Fin c')"
    for x y c c'
  proof -
    from at_bin [OF that(2)] obtain i where i: "i < N" "in_bin es N i x" "c = real (F i) / real N"
      by blast
    from at_bin [OF that(3)] obtain j where j: "j < N" "in_bin es N j y" "c' = real (F j) / real N"
      by blast
    have "i \<le> j"
      using bins_ordered [OF lohi N i(1) j(1)] i(2) j(2) that(1) by (simp add: es_def)
    from F_mono [OF this j(1)] show ?thesis
      using i(3) j(3) N by (simp add: divide_right_mono)
  qed
  have at_max: "cdf_at es vs (Max (set rs)) = Some (Fin 1)"
  proof -
    have m: "Max (set rs) \<in> set rs" using assms(1) by (intro Max_in) simp_all
    from observed [OF m] obtain c
      where c: "cdf_at es vs (Max (set rs)) = Some (Fin c)" "ecdf rs (Max (set rs)) \<le> c" "c \<le> 1"
      by blast
    have "filter (\<lambda>v. v \<le> Max (set rs)) rs = rs"
      by (simp add: filter_id_conv)
    then have "ecdf rs (Max (set rs)) = 1"
      using N by (simp add: ecdf_def N_def)
    with c show ?thesis by simp
  qed
  have steps: "\<forall>i j. i \<le> j \<and> j < length rs \<longrightarrow>
      (\<exists>c c'. vs ! i = Fin c \<and> vs ! j = Fin c' \<and> c \<le> c')"
  proof (intro allI impI)
    fix i j assume ij: "i \<le> j \<and> j < length rs"
    then have "i < N" "j < N" by (simp_all add: N_def)
    moreover have "real (F i) / real N \<le> real (F j) / real N"
      using F_mono [of i j] ij N by (simp add: divide_right_mono N_def)
    ultimately show "\<exists>c c'. vs ! i = Fin c \<and> vs ! j = Fin c' \<and> c \<le> c'"
      using val by blast
  qed
  have bin_values: "\<forall>i<length rs. vs ! i =
      Fin (real (length (filter (\<lambda>v. Suc i = length rs \<or> v < es ! Suc i) rs)) / real (length rs))"
    using val by (simp add: F_def N_def)
  have "length vs = length rs" using len by (simp add: N_def)
  with run series bin_values steps observed monotone at_max show ?thesis
    by blast
qed

lemma upt_5: "[0..<5] = [0, 1, 2, 3, 4]"
  by (simp add: upt_rec)

lemma series_hist_cdf_four:
  "series_hist_cdf [Fin 0, Fin (1 / 10), Fin (1 / 5), Fin 1] 4
     = Inr ([0, 1 / 4, 1 / 2, 3 / 4, 1], [Fin (3 / 4), Fin (3 / 4), Fin (3 / 4), Fin 1])"
proof -
  have oe: "outer_edges [0, 1 / 10, 1 / 5, 1] = (0, 1)"
    by (simp add: outer_edges_def)
  have es: "linspace 0 1 4 = [0, 1 / 4, 1 / 2, 3 / 4, 1]"
    by (simp add: linspace_def edge_def upt_5 numeral_eq_Suc [symmetric] del: upt_Suc)
  have cs: "bin_counts [0, 1 / 4, 1 / 2, 3 / 4, 1] 4 [0, 1 / 10, 1 / 5, 1] = [3, 0, 0, 1]"
    by (simp add: bin_counts_def in_bin_def upt_4)
  have "(1::int) \<le> 4" by simp
  from np_histogram_run [OF this oe]
  have "np_histogram [0, 1 / 10, 1 / 5, 1] 4 = Inr ([0, 1 / 4, 1 / 2, 3 / 4, 1], [3, 0, 0, 1])"
    by (simp add: es cs)
  then show ?thesis
    by (simp add: series_hist_cdf_def cumsum_def)
qed

lemma draw_profiles_run:
  assumes "get_col (frame w) ''r'' = Inr r" and "dp r = Inr k"
    and "series_hist_cdf r (int (length r)) = Inr (es, vs)" and "py_max r = Inr m"
  shows "draw_profiles dp nrm False w
    = (Inr (),
       w\<lparr>plot := plot w @ [Subplots, DistPlot k, AxYLabel 1 ''KDE'',
            AxTitle 1 (nrows (frame w)) (int (length (cols (frame w))) - 1),
            CumHist es vs, AxYLabel 2 ''CDF'',
            XLim (Fin 0) (fl_mul (Fin (99 / 100)) m), XLabel (xlab nrm)]\<rparr>)"
  using assms by (simp add: draw_profiles_def step_defs)

lemma length_update_present:
  "c \<in> fst ` set al \<Longrightarrow> length (AList.update c v al) = length al"
  by (induction al) auto

lemma length_cols_set_col:
  "has_col df c \<Longrightarrow> length (cols (set_col c v df)) = length (cols df)"
  by (simp add: set_col_def has_col_def length_update_present map_of_eq_None_iff)

text \<open>
  C3, as the code has it. Take a frame whose column \<open>r\<close> holds a non-empty sequence of
  finite radii, a call without \<open>vol\<close> whose density estimate succeeds, and either no
  normalisation or a maximum radius other than 0. The column \<open>qs\<close> that is plotted is
  the column of the radii, divided by their maximum under normalisation. The call draws
  the density subplot and then a cumulative histogram of \<open>qs\<close> with as many bins as
  there are radii. The value of a bin is the fraction of \<open>qs\<close> that lies left of the
  right edge of the bin (all of it, for the last bin). These values do not decrease from
  bin to bin, so the plotted curve is non-decreasing in \<open>x\<close>; its height over an
  observed value \<open>x\<close> is at least the fraction of the values that are less than or
  equal to \<open>x\<close>, and at most 1; over the largest value it is exactly 1.
\<close>

theorem cumulative_histogram_profile:
  assumes "rs \<noteq> []" and "get_col (frame w) ''r'' = Inr (map Fin rs)"
    and "nrm \<longrightarrow> Max (set rs) \<noteq> 0"
    and "qs = (if nrm then map (\<lambda>x. x / Max (set rs)) rs else rs)"
    and "dp (map Fin qs) = Inr k"
  shows "\<exists>es vs.
      kde_cdf_plot dp nrm False w
        = (Inr (),
           w\<lparr>frame := (if nrm then set_col ''r'' (map Fin qs) (frame w) else frame w),
             plot := plot w @ [Subplots, DistPlot k, AxYLabel 1 ''KDE'',
               AxTitle 1 (nrows (frame w)) (int (length (cols (frame w))) - 1),
               CumHist es vs, AxYLabel 2 ''CDF'',
               XLim (Fin 0) (Fin (99 / 100 * Max (set qs))), XLabel (xlab nrm)]\<rparr>)
      \<and> series_hist_cdf (map Fin qs) (int (length qs)) = Inr (es, vs)
      \<and> length vs = length qs
      \<and> (\<forall>i<length qs. vs ! i =
            Fin (real (length (filter (\<lambda>v. Suc i = length qs \<or> v < es ! Suc i) qs))
                 / real (length qs)))
      \<and> (\<forall>i j. i \<le> j \<and> j < length qs \<longrightarrow> (\<exists>c c'. vs ! i = Fin c \<and> vs ! j = Fin c' \<and> c \<le> c'))
      \<and> (\<forall>x\<in>set qs. \<exists>c. cdf_at es vs x = Some (Fin c) \<and> ecdf qs x \<le> c \<and> c \<le> 1)
      \<and> (\<forall>x y c c'. x \<le> y \<and> cdf_at es vs x = Some (Fin c) \<and> cdf_at es vs y = Some (Fin c')
            \<longrightarrow> c \<le> c')
      \<and> cdf_at es vs (Max (set qs)) = Some (Fin 1)"
proof -
  define w1 where
    "w1 = (if nrm then w\<lparr>frame := set_col ''r'' (map Fin qs) (frame w)\<rparr> else w)"
  have has: "has_col (frame w) ''r''"
    using assms(2) by (auto simp: get_col_has)
  have ne: "qs \<noteq> []"
    using assms(1,4) by simp
  have run1: "kde_cdf_plot dp nrm False w = draw_profiles dp nrm False w1"
  proof (cases nrm)
    case True
    with assms(3) have m: "Max (set rs) \<noteq> 0" by simp
    have "map Fin qs = map (\<lambda>x. Fin (x / Max (set rs))) rs"
      using True assms(4) by simp
    with True kde_norm_run [OF assms(2,1) m, of dp False] show ?thesis
      by (simp add: w1_def)
  next
    case False
    with has show ?thesis by (simp add: kde_unfold w1_def)
  qed
  have g1: "get_col (frame w1) ''r'' = Inr (map Fin qs)"
    using assms(2,4) by (simp add: w1_def get_col_set_col)
  have title: "nrows (frame w1) = nrows (frame w)"
    "length (cols (frame w1)) = length (cols (frame w))"
    using has by (simp_all add: w1_def length_cols_set_col) (simp add: set_col_def)
  have upd: "w1\<lparr>plot := p\<rparr>
      = w\<lparr>frame := (if nrm then set_col ''r'' (map Fin qs) (frame w) else frame w), plot := p\<rparr>"
    for p
    by (simp add: w1_def)
  have plot1: "plot w1 = plot w"
    by (simp add: w1_def)
  from hist_cdf_profile [OF ne g1] obtain es vs where
    series: "series_hist_cdf (map Fin qs) (int (length qs)) = Inr (es, vs)"
    and props: "length vs = length qs"
      "\<forall>i<length qs. vs ! i =
            Fin (real (length (filter (\<lambda>v. Suc i = length qs \<or> v < es ! Suc i) qs))
                 / real (length qs))"
      "\<forall>i j. i \<le> j \<and> j < length qs \<longrightarrow> (\<exists>c c'. vs ! i = Fin c \<and> vs ! j = Fin c' \<and> c \<le> c')"
      "\<forall>x\<in>set qs. \<exists>c. cdf_at es vs x = Some (Fin c) \<and> ecdf qs x \<le> c \<and> c \<le> 1"
      "\<forall>x y c c'. x \<le> y \<and> cdf_at es vs x = Some (Fin c) \<and> cdf_at es vs y = Some (Fin c')
            \<longrightarrow> c \<le> c'"
      "cdf_at es vs (Max (set qs)) = Some (Fin 1)"
    by blast
  have series': "series_hist_cdf (map Fin qs) (int (length (map Fin qs))) = Inr (es, vs)"
    using series by simp
  have "draw_profiles dp nrm False w1
    = (Inr (),
       w1\<lparr>plot := plot w1 @ [Subplots, DistPlot k, AxYLabel 1 ''KDE'',
            AxTitle 1 (nrows (frame w1)) (int (length (cols (frame w1))) - 1),
            CumHist es vs, AxYLabel 2 ''CDF'',
            XLim (Fin 0) (fl_mul (Fin (99 / 100)) (Fin (Max (set qs)))), XLabel (xlab nrm)]\<rparr>)"
    using g1 assms(5) series' py_max_Fin [OF ne] by (rule draw_profiles_run)
  then have run: "kde_cdf_plot dp nrm False w
        = (Inr (),
           w\<lparr>frame := (if nrm then set_col ''r'' (map Fin qs) (frame w) else frame w),
             plot := plot w @ [Subplots, DistPlot k, AxYLabel 1 ''KDE'',
               AxTitle 1 (nrows (frame w)) (int (length (cols (frame w))) - 1),
               CumHist es vs, AxYLabel 2 ''CDF'',
               XLim (Fin 0) (Fin (99 / 100 * Max (set qs))), XLabel (xlab nrm)]\<rparr>)"
    by (simp only: run1 title plot1 upd fl_mul.simps)
  from run series props show ?thesis by blast
qed

theorem cumulative_histogram_profile_witness:
  "(\<exists>es vs.
     kde_cdf_plot (\<lambda>r. Inr (length r)) False False
        \<lparr>frame = \<lparr>nrows = 3, cols = [(''r'', [Fin 0, Fin (1 / 10), Fin 1])]\<rparr>, plot = []\<rparr>
       = (Inr (), \<lparr>frame = \<lparr>nrows = 3, cols = [(''r'', [Fin 0, Fin (1 / 10), Fin 1])]\<rparr>,
                   plot = [Subplots, DistPlot 3, AxYLabel 1 ''KDE'', AxTitle 1 3 0,
                           CumHist es vs, AxYLabel 2 ''CDF'',
                           XLim (Fin 0) (Fin (99 / 100)), XLabel ''radial distance'']\<rparr>)
     \<and> cdf_at es vs 1 = Some (Fin 1))
   \<and> (\<exists>es vs.
     kde_cdf_plot (\<lambda>r. Inr (length r)) True False
        \<lparr>frame = \<lparr>nrows = 2, cols = [(''r'', [Fin 1, Fin 2])]\<rparr>, plot = []\<rparr>
       = (Inr (), \<lparr>frame = \<lparr>nrows = 2, cols = [(''r'', [Fin (1 / 2), Fin 1])]\<rparr>,
                   plot = [Subplots, DistPlot 2, AxYLabel 1 ''KDE'', AxTitle 1 2 0,
                           CumHist es vs, AxYLabel 2 ''CDF'',
                           XLim (Fin 0) (Fin (99 / 100)), XLabel ''radial distance (%)'']\<rparr>)
     \<and> cdf_at es vs 1 = Some (Fin 1))"
proof -
  let ?dp = "\<lambda>r :: npfloat list. Inr (length r) :: error + nat"
  let ?w = "\<lparr>frame = \<lparr>nrows = 3, cols = [(''r'', [Fin 0, Fin (1 / 10), Fin 1])]\<rparr>,
             plot = ([] :: nat draw list)\<rparr>"
  let ?v = "\<lparr>frame = \<lparr>nrows = 2, cols = [(''r'', [Fin 1, Fin 2])]\<rparr>,
             plot = ([] :: nat draw list)\<rparr>"
  have ne: "[0, 1 / 10, 1] \<noteq> ([] :: real list)" by simp
  have g: "get_col (frame ?w) ''r'' = Inr (map Fin [0, 1 / 10, 1])"
    by (simp add: get_col_def)
  have n: "False \<longrightarrow> Max (set [0, 1 / 10, 1 :: real]) \<noteq> 0" by simp
  have q: "[0, 1 / 10, 1 :: real]
      = (if False then map (\<lambda>x. x / Max (set [0, 1 / 10, 1])) [0, 1 / 10, 1] else [0, 1 / 10, 1])"
    by simp
  have d: "?dp (map Fin [0, 1 / 10, 1]) = Inr 3" by simp
  have m: "Max (set [0, 1 / 10, 1 :: real]) = 1" by simp
  from cumulative_histogram_profile
      [of "[0, 1 / 10, 1]" ?w False "[0, 1 / 10, 1]" ?dp 3, OF ne g n q d]
  obtain es vs
    where "kde_cdf_plot ?dp False False ?w
        = (Inr (),
           ?w\<lparr>frame := (if False then set_col ''r'' (map Fin [0, 1 / 10, 1]) (frame ?w) else frame ?w),
             plot := plot ?w @ [Subplots, DistPlot 3, AxYLabel 1 ''KDE'',
               AxTitle 1 (nrows (frame ?w)) (int (length (cols (frame ?w))) - 1),
               CumHist es vs, AxYLabel 2 ''CDF'',
               XLim (Fin 0) (Fin (99 / 100 * Max (set [0, 1 / 10, 1]))), XLabel (xlab False)]\<rparr>)"
      and "cdf_at es vs (Max (set [0, 1 / 10, 1])) = Some (Fin 1)"
    by blast
  then have first: "\<exists>es vs.
     kde_cdf_plot ?dp False False ?w
       = (Inr (), \<lparr>frame = \<lparr>nrows = 3, cols = [(''r'', [Fin 0, Fin (1 / 10), Fin 1])]\<rparr>,
                   plot = [Subplots, DistPlot 3, AxYLabel 1 ''KDE'', AxTitle 1 3 0,
                           CumHist es vs, AxYLabel 2 ''CDF'',
                           XLim (Fin 0) (Fin (99 / 100)), XLabel ''radial distance'']\<rparr>)
     \<and> cdf_at es vs 1 = Some (Fin 1)"
    by (simp add: m xlab_def)
  have ne2: "[1, 2] \<noteq> ([] :: real list)" by simp
  have g2: "get_col (frame ?v) ''r'' = Inr (map Fin [1, 2])"
    by (simp add: get_col_def)
  have m2: "Max (set [1, 2 :: real]) = 2" by simp
  have n2: "True \<longrightarrow> Max (set [1, 2 :: real]) \<noteq> 0" by simp
  have q2: "[1 / 2, 1 :: real] = (if True then map (\<lambda>x. x / Max (set [1, 2])) [1, 2] else [1, 2])"
    by simp
  have d2: "?dp (map Fin [1 / 2, 1]) = Inr 2" by simp
  have m3: "Max (set [1 / 2, 1 :: real]) = 1" by simp
  from cumulative_histogram_profile
      [of "[1, 2]" ?v True "[1 / 2, 1]" ?dp 2, OF ne2 g2 n2 q2 d2]
  obtain es vs
    where "kde_cdf_plot ?dp True False ?v
        = (Inr (),
           ?v\<lparr>frame := (if True then set_col ''r'' (map Fin [1 / 2, 1]) (frame ?v) else frame ?v),
             plot := plot ?v @ [Subplots, DistPlot 2, AxYLabel 1 ''KDE'',
               AxTitle 1 (nrows (frame ?v)) (int (length (cols (frame ?v))) - 1),
               CumHist es vs, AxYLabel 2 ''CDF'',
               XLim (Fin 0) (Fin (99 / 100 * Max (set [1 / 2, 1]))), XLabel (xlab True)]\<rparr>)"
      and "cdf_at es vs (Max (set [1 / 2, 1])) = Some (Fin 1)"
    by blast
  then have second: "\<exists>es vs.
     kde_cdf_plot ?dp True False ?v
       = (Inr (), \<lparr>frame = \<lparr>nrows = 2, cols = [(''r'', [Fin (1 / 2), Fin 1])]\<rparr>,
                   plot = [Subplots, DistPlot 2, AxYLabel 1 ''KDE'', AxTitle 1 2 0,
                           CumHist es vs, AxYLabel 2 ''CDF'',
                           XLim (Fin 0) (Fin (99 / 100)), XLabel ''radial distance (%)'']\<rparr>)
     \<and> cdf_at es vs 1 = Some (Fin 1)"
    by (simp add: m3 xlab_def set_col_def)
  from first second show ?thesis by blast
qed

text \<open>
  A counterexample to C3 as it is stated: for the radii \<open>0, 0.1, 0.2, 1\<close> the plotted
  curve has the height \<open>3/4\<close> over the observed radius \<open>0.1\<close>, inside the first bin,
  while the fraction of the radii that are less than or equal to \<open>0.1\<close> is \<open>1/2\<close>.
\<close>

theorem cdf_value_counterexample:
  "kde_cdf_plot (\<lambda>r. Inr (length r)) False False
      \<lparr>frame = \<lparr>nrows = 4, cols = [(''r'', [Fin 0, Fin (1 / 10), Fin (1 / 5), Fin 1])]\<rparr>,
       plot = []\<rparr>
    = (Inr (),
       \<lparr>frame = \<lparr>nrows = 4, cols = [(''r'', [Fin 0, Fin (1 / 10), Fin (1 / 5), Fin 1])]\<rparr>,
        plot = [Subplots, DistPlot 4, AxYLabel 1 ''KDE'', AxTitle 1 4 0,
                CumHist [0, 1 / 4, 1 / 2, 3 / 4, 1] [Fin (3 / 4), Fin (3 / 4), Fin (3 / 4), Fin 1],
                AxYLabel 2 ''CDF'', XLim (Fin 0) (Fin (99 / 100)),
                XLabel ''radial distance'']\<rparr>)
   \<and> cdf_at [0, 1 / 4, 1 / 2, 3 / 4, 1] [Fin (3 / 4), Fin (3 / 4), Fin (3 / 4), Fin 1] (1 / 10)
       = Some (Fin (3 / 4))
   \<and> ecdf [0, 1 / 10, 1 / 5, 1] (1 / 10) = 1 / 2"
proof -
  have "kde_cdf_plot (\<lambda>r. Inr (length r)) False False
      \<lparr>frame = \<lparr>nrows = 4, cols = [(''r'', [Fin 0, Fin (1 / 10), Fin (1 / 5), Fin 1])]\<rparr>,
       plot = []\<rparr>
    = (Inr (),
       \<lparr>frame = \<lparr>nrows = 4, cols = [(''r'', [Fin 0, Fin (1 / 10), Fin (1 / 5), Fin 1])]\<rparr>,
        plot = [Subplots, DistPlot 4, AxYLabel 1 ''KDE'', AxTitle 1 4 0,
                CumHist [0, 1 / 4, 1 / 2, 3 / 4, 1] [Fin (3 / 4), Fin (3 / 4), Fin (3 / 4), Fin 1],
                AxYLabel 2 ''CDF'', XLim (Fin 0) (Fin (99 / 100)),
                XLabel ''radial distance'']\<rparr>)"
    by (simp add: kde_unfold has_col_def draw_profiles_def step_defs get_col_def
        series_hist_cdf_four xlab_def)
  moreover have "cdf_at [0, 1 / 4, 1 / 2, 3 / 4, 1] [Fin (3 / 4), Fin (3 / 4), Fin (3 / 4), Fin 1]
      (1 / 10) = Some (Fin (3 / 4))"
    by (simp add: cdf_at_def in_bin_def upt_4)
  moreover have "ecdf [0, 1 / 10, 1 / 5, 1] (1 / 10) = 1 / 2"
    by (simp add: ecdf_def)
  ultimately show ?thesis by blast
qed

section \<open>Where the functions fail\<close>

lemma bin_counts_Nil: "bin_counts es b [] = replicate b 0"
  by (simp add: bin_counts_def map_replicate_const)

lemma draw_profiles_empty:
  assumes "get_col (frame w) ''r'' = Inr []"
  shows "isl (fst (draw_profiles dp nrm vol w))"
    and "dp [] = Inr k \<Longrightarrow> draw_profiles dp nrm False w
      = (Inl ValueError,
         w\<lparr>plot := plot w @ [Subplots, DistPlot k, AxYLabel 1 ''KDE'',
              AxTitle 1 (nrows (frame w)) (int (length (cols (frame w))) - 1)]\<rparr>)"
  using assms
  by (auto simp: draw_profiles_def step_defs series_hist_cdf_def split: sum.splits)

text \<open>
  C6, as the code has it. Neither function checks its input, and there is no error of
  the kind InvalidInput. The histogram of the pairwise distances fails exactly when the
  bin count is below 1, with the ValueError of the histogram routine, raised after the
  figure has been opened; on fewer than 2 points and a bin count of at least 1 it does
  not fail and draws bins over \<open>[0, 1]\<close> with the counts 0. On an empty column of radii
  the profile always ends in an exception: the ValueError of \<open>max\<close> at the
  normalisation, otherwise an exception of the density estimator, the NotImplementedError
  of the \<open>vol\<close> branch, or the ValueError of the histogram with 0 bins.
\<close>

theorem failures_without_validation:
  "(isl (fst (in_sample_dist X n p)) \<longleftrightarrow> n < 1)
   \<and> (n < 1 \<longrightarrow> in_sample_dist X n p = (Inl ValueError, p @ [NewFigure]))
   \<and> (length (rows X) < 2 \<and> 1 \<le> n \<longrightarrow>
        in_sample_dist X n p
          = (Inr (), p @ [NewFigure, Hist (linspace 0 1 (nat n)) (replicate (nat n) 0),
                          XLabel ''inter-sample distance'', YLabel ''count'']))
   \<and> (get_col (frame w) ''r'' = Inr [] \<longrightarrow>
        isl (fst (kde_cdf_plot dp nrm vol w))
        \<and> kde_cdf_plot dp True vol w = (Inl ValueError, w)
        \<and> (dp [] = Inr k \<longrightarrow>
             kde_cdf_plot dp False False w
               = (Inl ValueError,
                  w\<lparr>plot := plot w @ [Subplots, DistPlot k, AxYLabel 1 ''KDE'',
                       AxTitle 1 (nrows (frame w)) (int (length (cols (frame w))) - 1)]\<rparr>)))"
proof -
  have a: "isl (fst (in_sample_dist X n p)) \<longleftrightarrow> n < 1"
    using np_histogram_fails [of "pdist X" n]
    by (cases "np_histogram (pdist X) n") (auto simp: in_sample_dist_cases)
  have b: "n < 1 \<longrightarrow> in_sample_dist X n p = (Inl ValueError, p @ [NewFigure])"
    by (simp add: in_sample_dist_cases np_histogram_def)
  have c: "length (rows X) < 2 \<and> 1 \<le> n \<longrightarrow>
        in_sample_dist X n p
          = (Inr (), p @ [NewFigure, Hist (linspace 0 1 (nat n)) (replicate (nat n) 0),
                          XLabel ''inter-sample distance'', YLabel ''count''])"
  proof
    assume h: "length (rows X) < 2 \<and> 1 \<le> n"
    then have "pdist X = []" by (simp add: pdist_few)
    moreover have "outer_edges [] = (0, 1)" by (simp add: outer_edges_def)
    ultimately show "in_sample_dist X n p
          = (Inr (), p @ [NewFigure, Hist (linspace 0 1 (nat n)) (replicate (nat n) 0),
                          XLabel ''inter-sample distance'', YLabel ''count''])"
      using h by (simp add: in_sample_dist_cases np_histogram_run bin_counts_Nil)
  qed
  have d: "get_col (frame w) ''r'' = Inr [] \<longrightarrow>
        isl (fst (kde_cdf_plot dp nrm vol w))
        \<and> kde_cdf_plot dp True vol w = (Inl ValueError, w)
        \<and> (dp [] = Inr k \<longrightarrow>
             kde_cdf_plot dp False False w
               = (Inl ValueError,
                  w\<lparr>plot := plot w @ [Subplots, DistPlot k, AxYLabel 1 ''KDE'',
                       AxTitle 1 (nrows (frame w)) (int (length (cols (frame w))) - 1)]\<rparr>))"
  proof
    assume g: "get_col (frame w) ''r'' = Inr []"
    then have h: "has_col (frame w) ''r''" by (auto simp: get_col_has)
    have n: "normalise_r w = (Inl ValueError, w)"
      using g by (simp add: normalise_r_cases)
    have "isl (fst (kde_cdf_plot dp nrm vol w))"
      using h n draw_profiles_empty(1) [OF g, of dp nrm vol]
      by (cases nrm) (simp_all add: kde_unfold)
    moreover have "kde_cdf_plot dp True vol w = (Inl ValueError, w)"
      using h n by (simp add: kde_unfold)
    moreover have "dp [] = Inr k \<longrightarrow>
             kde_cdf_plot dp False False w
               = (Inl ValueError,
                  w\<lparr>plot := plot w @ [Subplots, DistPlot k, AxYLabel 1 ''KDE'',
                       AxTitle 1 (nrows (frame w)) (int (length (cols (frame w))) - 1)]\<rparr>)"
      using h draw_profiles_empty(2) [OF g, of dp k False] by (simp add: kde_unfold)
    ultimately show "isl (fst (kde_cdf_plot dp nrm vol w))
        \<and> kde_cdf_plot dp True vol w = (Inl ValueError, w)
        \<and> (dp [] = Inr k \<longrightarrow>
             kde_cdf_plot dp False False w
               = (Inl ValueError,
                  w\<lparr>plot := plot w @ [Subplots, DistPlot k, AxYLabel 1 ''KDE'',
                       AxTitle 1 (nrows (frame w)) (int (length (cols (frame w))) - 1)]\<rparr>))"
      by blast
  qed
  from a b c d show ?thesis by blast
qed

theorem failures_without_validation_witness:
  "in_sample_dist \<lparr>shape1 = 1, rows = [[0], [1]]\<rparr> 0 ([] :: unit draw list)
     = (Inl ValueError, [NewFigure])
   \<and> in_sample_dist \<lparr>shape1 = 2, rows = [[3, 4]]\<rparr> 2 ([] :: unit draw list)
     = (Inr (), [NewFigure, Hist (linspace 0 1 2) [0, 0],
                 XLabel ''inter-sample distance'', YLabel ''count''])
   \<and> kde_cdf_plot (\<lambda>r. Inr (length r)) True False
        \<lparr>frame = \<lparr>nrows = 0, cols = [(''r'', [])]\<rparr>, plot = []\<rparr>
     = (Inl ValueError, \<lparr>frame = \<lparr>nrows = 0, cols = [(''r'', [])]\<rparr>, plot = []\<rparr>)"
  using failures_without_validation [of "\<lparr>shape1 = 1, rows = [[0], [1]]\<rparr>" 0 "[] :: unit draw list"
      "\<lparr>frame = \<lparr>nrows = 0, cols = [(''r'', [])]\<rparr>, plot = []\<rparr>" "\<lambda>r. Inr (length r)" True False 0]
    failures_without_validation [of "\<lparr>shape1 = 2, rows = [[3, 4]]\<rparr>" 2 "[] :: unit draw list"
      "\<lparr>frame = \<lparr>nrows = 0, cols = [(''r'', [])]\<rparr>, plot = []\<rparr>" "\<lambda>r. Inr (length r)" True False 0]
  by (simp add: get_col_def numeral_2_eq_2)

text \<open>
  A counterexample to C6 as it is stated: with a single point and 3 bins the histogram
  of the pairwise distances does not fail; it draws three empty bins over \<open>[0, 1]\<close>.
\<close>

theorem single_point_counterexample:
  "in_sample_dist \<lparr>shape1 = 2, rows = [[3, 4]]\<rparr> 3 ([] :: unit draw list)
     = (Inr (), [NewFigure, Hist [0, 1 / 3, 2 / 3, 1] [0, 0, 0],
                 XLabel ''inter-sample distance'', YLabel ''count''])
   \<and> \<not> isl (fst (in_sample_dist \<lparr>shape1 = 2, rows = [[3, 4]]\<rparr> 3 ([] :: unit draw list)))"
proof -
  have p: "pdist \<lparr>shape1 = 2, rows = [[3, 4]]\<rparr> = []" by (simp add: pdist_def)
  have oe: "outer_edges [] = (0, 1)" by (simp add: outer_edges_def)
  have es: "linspace 0 1 3 = [0, 1 / 3, 2 / 3, 1]"
    by (simp add: linspace_def edge_def upt_4 numeral_eq_Suc [symmetric] del: upt_Suc)
  have "replicate 3 (0::nat) = [0, 0, 0]" by (simp add: numeral_3_eq_3)
  then have cs: "bin_counts [0, 1 / 3, 2 / 3, 1] 3 [] = [0, 0, 0]"
    by (simp only: bin_counts_Nil)
  have "(1::int) \<le> 3" by simp
  from np_histogram_run [OF this oe]
  have "np_histogram [] 3 = Inr ([0, 1 / 3, 2 / 3, 1], [0, 0, 0])"
    by (simp add: es cs)
  then show ?thesis
    unfolding in_sample_dist_cases p by simp
qed

end
